theory Spec2Isabelle
  imports Complex_Main "HOL-Library.AList"
begin

section \<open>Common notions\<close>

text \<open>
  JavaScript objects are referred to by reference. A reference is modelled as a natural
  number naming the object; two references are the same object iff the numbers are equal.
\<close>

type_synonym ref = nat

text \<open>
  Exceptions are values. \<open>TypeError\<close> is what the JavaScript engine throws when a
  property of \<open>null\<close> or \<open>undefined\<close> is read or a non-function is called;
  \<open>EngineError\<close> is whatever a call into the IFC engine throws; the others are the
  \<open>Error\<close>s the source throws itself.
\<close>

datatype error =
    TypeError
  | SchemaNotFound
  | NoOwnerHistory
  | EntityNotFound
  | AttributeArrayOrNull
  | BadlyDefinedHandle
  | EngineError

section \<open>SimpleRenderer\<close>

text \<open>
  The component wraps a \<open>THREE.WebGLRenderer\<close> and a \<open>CSS2DRenderer\<close>. Both are
  objects of external libraries: the model records every call made on them (and on the
  DOM and on the two update events) in a log, in the order the source makes them.
\<close>

datatype rcall =
    SetPixelRatio ref nat
  | SetLocalClipping ref
  | AppendChild ref
  | StyleOverlay ref
  | AddResizeListener
  | TriggerBeforeUpdate
  | TriggerAfterUpdate
  | Render3D ref ref ref
  | Render2D ref ref ref
  | SetSize3D ref nat nat
  | SetSize2D ref nat nat
  | DomRemove ref
  | Dispose3D ref

text \<open>
  \<open>components.scene\<close> and \<open>components.camera\<close> are optional components; each has a
  \<open>get()\<close> that returns the wrapped three.js object. The outer \<open>option\<close> is the
  component (\<open>None\<close>: \<open>undefined\<close>, where \<open>?.\<close> short-circuits), the inner one is
  what \<open>get()\<close> returns (\<open>None\<close>: a falsy result).
\<close>

record components =
  scene :: "ref option option"
  camera :: "ref option option"

record html_element =
  clientWidth :: nat
  clientHeight :: nat

text \<open>
  The fields of the class. \<open>renderer\<close> and \<open>renderer2D\<close> are the source's
  \<open>_renderer\<close> and \<open>_renderer2D\<close>; \<open>None\<close> is \<open>null\<close>.
\<close>

record simple_renderer =
  comps :: components
  container :: "html_element option"
  renderer :: "ref option"
  renderer2D :: "ref option"
  enabled :: bool
  calls :: "rcall list"

definition emit :: "rcall list \<Rightarrow> simple_renderer \<Rightarrow> simple_renderer" where
  "emit cs sr = sr\<lparr>calls := calls sr @ cs\<rparr>"

text \<open>\<open>this.components.scene?.get()\<close> and \<open>this.components.camera?.get()\<close>.\<close>

definition scene_get :: "components \<Rightarrow> ref option" where
  "scene_get c = (case scene c of None \<Rightarrow> None | Some g \<Rightarrow> g)"

definition camera_get :: "components \<Rightarrow> ref option" where
  "camera_get c = (case camera c of None \<Rightarrow> None | Some g \<Rightarrow> g)"

text \<open>\<open>resize()\<close>: reads the container's client size and sets it on both renderers.\<close>

definition resize :: "simple_renderer \<Rightarrow> error + simple_renderer" where
  "resize sr =
     (case container sr of
        None \<Rightarrow> Inl TypeError
      | Some el \<Rightarrow>
          (case renderer sr of
             None \<Rightarrow> Inl TypeError
           | Some r \<Rightarrow>
               (case renderer2D sr of
                  None \<Rightarrow> Inl TypeError
                | Some r2 \<Rightarrow>
                    Inr (emit [SetSize3D r (clientWidth el) (clientHeight el),
                               SetSize2D r2 (clientWidth el) (clientHeight el)] sr))))"

text \<open>
  The constructor. \<open>r\<close> and \<open>r2\<close> are the objects that \<open>new THREE.WebGLRenderer\<close> and
  \<open>new CSS2DRenderer\<close> return, \<open>dpr\<close> is \<open>window.devicePixelRatio\<close> (taken as a
  whole number here; it is only passed on). It runs
  \<open>setPixelRatio\<close>, \<open>setupRenderers\<close>, \<open>setupEvents\<close> and \<open>resize\<close>.
\<close>

definition new_SimpleRenderer ::
  "components \<Rightarrow> html_element \<Rightarrow> ref \<Rightarrow> ref \<Rightarrow> nat \<Rightarrow> error + simple_renderer" where
  "new_SimpleRenderer c el r r2 dpr =
     resize
       \<lparr>comps = c, container = Some el, renderer = Some r, renderer2D = Some r2,
        enabled = True,
        calls = [SetPixelRatio r (min dpr 2), SetLocalClipping r, AppendChild r,
                 StyleOverlay r2, AppendChild r2, AddResizeListener]\<rparr>"

text \<open>\<open>get()\<close> returns the field \<open>_renderer\<close>.\<close>

definition get :: "simple_renderer \<Rightarrow> ref option" where
  "get sr = renderer sr"

text \<open>
  \<open>update(_delta)\<close>: triggers \<open>beforeUpdate\<close>, reads scene and camera, returns early when
  either is missing, otherwise renders on both renderers and triggers \<open>afterUpdate\<close>.
\<close>

definition update :: "simple_renderer \<Rightarrow> int \<Rightarrow> error + simple_renderer" where
  "update sr delta =
     (let sr1 = emit [TriggerBeforeUpdate] sr in
      case scene_get (comps sr1) of
        None \<Rightarrow> Inr sr1
      | Some sc \<Rightarrow>
          (case camera_get (comps sr1) of
             None \<Rightarrow> Inr sr1
           | Some cam \<Rightarrow>
               (case renderer sr1 of
                  None \<Rightarrow> Inl TypeError
                | Some r \<Rightarrow>
                    (case renderer2D sr1 of
                       None \<Rightarrow> Inl TypeError
                     | Some r2 \<Rightarrow>
                         Inr (emit [Render3D r sc cam, Render2D r2 sc cam,
                                    TriggerAfterUpdate] sr1)))))"

text \<open>
  \<open>getSize()\<close> builds a vector from the client size of the renderer's canvas, which the
  browser computes: \<open>csize\<close> is that size at the time of the call.
\<close>

definition getSize :: "simple_renderer \<Rightarrow> nat \<times> nat \<Rightarrow> error + (nat \<times> nat)" where
  "getSize sr csize = (case renderer sr of None \<Rightarrow> Inl TypeError | Some r \<Rightarrow> Inr csize)"

text \<open>\<open>dispose()\<close>: detaches and disposes the WebGL renderer, then nulls the three fields.\<close>

definition dispose_renderer :: "simple_renderer \<Rightarrow> error + simple_renderer" where
  "dispose_renderer sr =
     (case renderer sr of
        None \<Rightarrow> Inl TypeError
      | Some r \<Rightarrow>
          Inr ((emit [DomRemove r, Dispose3D r] sr)
                 \<lparr>renderer := None, renderer2D := None, container := None\<rparr>))"

text \<open>A sequence of calls of \<open>update\<close>, \<open>resize\<close> and \<open>getSize\<close> on one renderer.\<close>

datatype rop = Update int | Resize | GetSize "nat \<times> nat"

fun run_rop :: "simple_renderer \<Rightarrow> rop \<Rightarrow> error + simple_renderer" where
  "run_rop sr (Update d) = update sr d"
| "run_rop sr Resize = resize sr"
| "run_rop sr (GetSize csize) =
     (case getSize sr csize of Inl e \<Rightarrow> Inl e | Inr v \<Rightarrow> Inr sr)"

fun run_rops :: "simple_renderer \<Rightarrow> rop list \<Rightarrow> error + simple_renderer" where
  "run_rops sr [] = Inr sr"
| "run_rops sr (x # xs) =
     (case run_rop sr x of Inl e \<Rightarrow> Inl e | Inr sr' \<Rightarrow> run_rops sr' xs)"

section \<open>IFC entities\<close>

text \<open>
  JavaScript primitives that occur as property values. A number is modelled as a real
  number (\<open>NaN\<close> and the infinities are left out): the manager performs no arithmetic
  on a value, it stores and compares it.
\<close>

datatype prim = PStr string | PNum real | PBool bool

text \<open>JavaScript truthiness of a primitive.\<close>

fun truthy :: "prim \<Rightarrow> bool" where
  "truthy (PStr s) = (s \<noteq> [])"
| "truthy (PNum n) = (n \<noteq> 0)"
| "truthy (PBool b) = b"

text \<open>
  The classes of web-ifc that wrap one value: \<open>Handle\<close> (a reference to another
  entity by express ID) and the typed values of the schema.
\<close>

datatype ifc_type =
    Handle
  | IfcGloballyUniqueId
  | IfcLabel
  | IfcText
  | IfcIdentifier
  | IfcInteger
  | IfcReal
  | IfcBoolean
  | IfcLogical

text \<open>
  What an attribute of an entity, or an element of an array attribute, can hold:
  \<open>null\<close>/\<open>undefined\<close>, a bare primitive, an array, or a wrapper object with a
  \<open>value\<close> property. \<open>ovalue = None\<close> is a wrapper whose \<open>value\<close> is \<open>undefined\<close> or
  \<open>null\<close>. \<open>olistener = Some ev\<close> says that \<open>value\<close> has been redefined as the
  accessor of \<open>setAttributeListener\<close> with event \<open>ev\<close>; \<open>ovalue\<close> is then what the
  getter returns, the hidden \<open>_value\<close>.
\<close>

datatype ifc_attr =
    Null
  | Prim prim
  | Obj (otype: ifc_type) (ovalue: "prim option") (olistener: "ref option")
  | Arr "ifc_attr list"

text \<open>\<open>new WEBIFC.Handle(id)\<close>.\<close>

definition new_Handle :: "nat \<Rightarrow> ifc_attr" where
  "new_Handle n = Obj Handle (Some (PNum (real n))) None"

text \<open>
  What the constructor of the web-ifc class \<open>T\<close> stores in \<open>value\<close> when it is given
  \<open>v\<close>. The classes for strings keep the argument, and so do the numeric classes for
  the numbers they are given here. \<open>IfcBoolean\<close> and \<open>IfcLogical\<close> expect the letters of
  the STEP file: \<open>IfcBoolean\<close> stores \<open>v == "T" ? true : false\<close>, \<open>IfcLogical\<close> stores
  \<open>v == "T" ? 1 : v == "F" ? 0 : 2\<close>. Under \<open>==\<close> only the string \<open>"T"\<close> is equal
  to \<open>"T"\<close>: a number or a JavaScript boolean is compared as a number with \<open>NaN\<close>.
\<close>

fun ifc_value :: "ifc_type \<Rightarrow> prim \<Rightarrow> prim" where
  "ifc_value IfcBoolean v = PBool (v = PStr ''T'')"
| "ifc_value IfcLogical v =
     PNum (if v = PStr ''T'' then 1 else if v = PStr ''F'' then 0 else 2)"
| "ifc_value t v = v"

text \<open>\<open>new WEBIFC[schema].T(v)\<close>.\<close>

definition new_value :: "ifc_type \<Rightarrow> prim \<Rightarrow> ifc_attr" where
  "new_value t v = Obj t (Some (ifc_value t v)) None"

text \<open>
  The numeric type codes of web-ifc for the four entity classes the manager names.
\<close>

definition IFCPROPERTYSET :: nat where
  "IFCPROPERTYSET = 1451395588"

definition IFCOWNERHISTORY :: nat where
  "IFCOWNERHISTORY = 1207048766"

definition IFCRELDEFINESBYPROPERTIES :: nat where
  "IFCRELDEFINESBYPROPERTIES = 4186316022"

definition IFCPROPERTYSINGLEVALUE :: nat where
  "IFCPROPERTYSINGLEVALUE = 3650150729"

text \<open>
  An entity: \<open>Record<string, any>\<close> with \<open>expressID\<close>, \<open>type\<close> and the attributes of
  its class. Express IDs are the line numbers of the STEP file, natural numbers;
  \<open>expressID = 0\<close> stands for every falsy \<open>expressID\<close> (\<open>0\<close> or \<open>undefined\<close>).
\<close>

record entity =
  expressID :: nat
  etype :: nat
  attrs :: "(string \<times> ifc_attr) list"

text \<open>\<open>entity[name]\<close>; an absent property reads as \<open>undefined\<close>.\<close>

definition entity_get :: "entity \<Rightarrow> string \<Rightarrow> ifc_attr" where
  "entity_get e name =
     (if name = ''expressID'' then Prim (PNum (real (expressID e)))
      else if name = ''type'' then Prim (PNum (real (etype e)))
      else (case map_of (attrs e) name of None \<Rightarrow> Null | Some a \<Rightarrow> a))"

text \<open>The effect on the entity of mutating or replacing its attribute \<open>name\<close>.\<close>

definition entity_set :: "entity \<Rightarrow> string \<Rightarrow> ifc_attr \<Rightarrow> entity" where
  "entity_set e name a = e\<lparr>attrs := AList.update name a (attrs e)\<rparr>"

section \<open>FragmentsGroup\<close>

datatype ifc_schema = IFC2X3 | IFC4 | IFC4X3

text \<open>
  The model, an object of the external fragments library, as far as the manager uses it:
  \<open>uuid\<close>, \<open>ifcMetadata.schema\<close> (\<open>None\<close>: falsy), \<open>ifcMetadata.maxExpressID\<close> and
  the table of properties by express ID. The table holds the entity objects themselves:
  an entity read with \<open>getProperties\<close> and then mutated is mutated in the table. The
  model writes such a mutation back at the express ID the entity was read from. Every
  entry has its own attribute objects: an object that the source puts into two
  entities (the owner history handle of \<open>newPset\<close>) is a copy in each.
\<close>

record model =
  uuid :: string
  schema :: "ifc_schema option"
  maxExpressID :: nat
  properties :: "(nat \<times> entity) list"

text \<open>
  \<open>getProperties(id)\<close> returns the entry or \<open>null\<close>; \<open>setProperties(id, data)\<close>
  stores the entry, or deletes it when \<open>data\<close> is \<open>null\<close>;
  \<open>getAllPropertiesOfType(type)\<close> returns the entries of that type, or \<open>null\<close> when
  there is none.
\<close>

definition getProperties :: "model \<Rightarrow> nat \<Rightarrow> entity option" where
  "getProperties m i = map_of (properties m) i"

definition setProperties :: "model \<Rightarrow> nat \<Rightarrow> entity option \<Rightarrow> model" where
  "setProperties m i data =
     m\<lparr>properties :=
         (case data of
            None \<Rightarrow> AList.delete i (properties m)
          | Some d \<Rightarrow> AList.update i d (properties m))\<rparr>"

definition getAllPropertiesOfType :: "model \<Rightarrow> nat \<Rightarrow> entity list option" where
  "getAllPropertiesOfType m t =
     (case filter (\<lambda>e. etype e = t) (map snd (AList.clearjunk (properties m))) of
        [] \<Rightarrow> None
      | es \<Rightarrow> Some es)"

section \<open>IfcPropertiesManager\<close>

text \<open>
  An \<open>Event\<close> is an object of the component core; triggering it calls the handlers
  registered by the application. The model records each trigger, with its payload, in a
  log; a model is named in a payload by its \<open>uuid\<close>. The event made by
  \<open>setAttributeListener\<close> is named by its reference.
\<close>

datatype fired =
    OnDataChanged string nat
  | OnElementToPset string nat nat
  | OnPropToPset string nat nat
  | OnPsetRemoved string nat
  | OnDisposed string
  | OnAttribute ref prim

text \<open>
  An operation of the manager takes the manager and the model and returns both as it
  leaves them, or the exception it throws (what it had changed before throwing is not
  kept). The handlers of an event are code of the application and are taken not to touch
  the manager or the model.
\<close>

text \<open>
  The fields of the class. \<open>changeMap[u]\<close> is a \<open>Set<number>\<close>: a list without
  repetition, in insertion order, which is the order in which a \<open>Set\<close> is iterated.
\<close>

record manager =
  selectedModel :: "string option"
  attributeListeners :: "string \<rightharpoonup> (nat \<rightharpoonup> (string \<rightharpoonup> ref))"
  changeMap :: "string \<rightharpoonup> nat list"
  triggers :: "fired list"

definition fire :: "fired list \<Rightarrow> manager \<Rightarrow> manager" where
  "fire fs mgr = mgr\<lparr>triggers := triggers mgr @ fs\<rparr>"

text \<open>\<open>Set.prototype.add\<close>.\<close>

definition set_add :: "nat \<Rightarrow> nat list \<Rightarrow> nat list" where
  "set_add i s = (if i \<in> set s then s else s @ [i])"

text \<open>\<open>this.changeMap[model.uuid] ?? []\<close>.\<close>

definition changes_of :: "manager \<Rightarrow> model \<Rightarrow> nat list" where
  "changes_of mgr m = (case changeMap mgr (uuid m) of None \<Rightarrow> [] | Some s \<Rightarrow> s)"

definition manager_uuid :: string where
  "manager_uuid = ''58c2d9f0-183c-48d6-a402-dfcf5b9a34df''"

definition dispose :: "manager \<Rightarrow> manager" where
  "dispose mgr =
     fire [OnDisposed manager_uuid]
       (mgr\<lparr>selectedModel := None, attributeListeners := Map.empty,
            changeMap := Map.empty\<rparr>)"

definition getIFCSchema :: "model \<Rightarrow> error + ifc_schema" where
  "getIFCSchema m = (case schema m of None \<Rightarrow> Inl SchemaNotFound | Some s \<Rightarrow> Inr s)"

text \<open>
  \<open>registerChange(model, ...expressID)\<close>: makes the set when there is none, then adds
  each ID and triggers \<open>onDataChanged\<close> for it.
\<close>

definition registerChange :: "manager \<Rightarrow> model \<Rightarrow> nat list \<Rightarrow> manager" where
  "registerChange mgr m ids =
     fire (map (OnDataChanged (uuid m)) ids)
       (mgr\<lparr>changeMap := (changeMap mgr)(uuid m \<mapsto> fold set_add ids (changes_of mgr m))\<rparr>)"

fun setData :: "manager \<Rightarrow> model \<Rightarrow> entity list \<Rightarrow> manager \<times> model" where
  "setData mgr m [] = (mgr, m)"
| "setData mgr m (d # ds) =
     (if expressID d = 0 then setData mgr m ds
      else setData (registerChange mgr m [expressID d])
                   (setProperties m (expressID d) (Some d)) ds)"

definition increaseMaxID :: "model \<Rightarrow> nat \<times> model" where
  "increaseMaxID m = (maxExpressID m + 1, m\<lparr>maxExpressID := maxExpressID m + 1\<rparr>)"

text \<open>\<open>newGUID(model)\<close>; \<open>g\<close> is the string that \<open>UUID.create()\<close> returns.\<close>

definition newGUID :: "model \<Rightarrow> string \<Rightarrow> error + ifc_attr" where
  "newGUID m g =
     (case getIFCSchema m of
        Inl e \<Rightarrow> Inl e
      | Inr s \<Rightarrow> Inr (new_value IfcGloballyUniqueId (PStr g)))"

text \<open>
  \<open>getOwnerHistory(model)\<close>. The entries come keyed by express ID, \<open>Object.keys\<close> lists
  integer keys in ascending order, so \<open>keys[0]\<close> is the least express ID among the owner
  histories; with no key at all, \<open>ownerHistory\<close> is \<open>undefined\<close> and reading its
  \<open>expressID\<close> throws. Only the handle of the result is used by the callers.
\<close>

definition getOwnerHistory :: "model \<Rightarrow> error + ifc_attr" where
  "getOwnerHistory m =
     (case getAllPropertiesOfType m IFCOWNERHISTORY of
        None \<Rightarrow> Inl NoOwnerHistory
      | Some [] \<Rightarrow> Inl TypeError
      | Some (e # es) \<Rightarrow> Inr (new_Handle (fold min (map expressID es) (expressID e))))"

text \<open>
  \<open>newPset(model, name, description?)\<close>; \<open>g1\<close> and \<open>g2\<close> are the results of the two
  calls of \<open>UUID.create()\<close>. The constructors of \<open>IfcPropertySet\<close> and
  \<open>IfcRelDefinesByProperties\<close> take the attributes in the order of the schema. The
  schema only selects the namespace \<open>WEBIFC[schema]\<close> the classes are taken from.
\<close>

definition newPset ::
  "manager \<Rightarrow> model \<Rightarrow> string \<Rightarrow> string option \<Rightarrow> string \<Rightarrow> string
     \<Rightarrow> error + ((entity \<times> entity) \<times> manager \<times> model)" where
  "newPset mgr m name description g1 g2 =
     (case getIFCSchema m of
        Inl e \<Rightarrow> Inl e
      | Inr s \<Rightarrow>
     (case getOwnerHistory m of
        Inl e \<Rightarrow> Inl e
      | Inr ownerHistoryHandle \<Rightarrow>
     (case newGUID m g1 of
        Inl e \<Rightarrow> Inl e
      | Inr psetGlobalId \<Rightarrow>
     (let psetName = new_value IfcLabel (PStr name);
          psetDescription =
            (case description of
               None \<Rightarrow> Null
             | Some d \<Rightarrow> if d \<noteq> [] then new_value IfcText (PStr d) else Null);
          (id1, m1) = increaseMaxID m;
          pset = \<lparr>expressID = id1, etype = IFCPROPERTYSET,
                  attrs = [(''GlobalId'', psetGlobalId),
                           (''OwnerHistory'', ownerHistoryHandle),
                           (''Name'', psetName),
                           (''Description'', psetDescription),
                           (''HasProperties'', Arr [])]\<rparr>
      in
     (case newGUID m1 g2 of
        Inl e \<Rightarrow> Inl e
      | Inr relGlobalId \<Rightarrow>
     (let (id2, m2) = increaseMaxID m1;
          rel = \<lparr>expressID = id2, etype = IFCRELDEFINESBYPROPERTIES,
                 attrs = [(''GlobalId'', relGlobalId),
                          (''OwnerHistory'', ownerHistoryHandle),
                          (''Name'', Null),
                          (''Description'', Null),
                          (''RelatedObjects'', Arr []),
                          (''RelatingPropertyDefinition'', new_Handle (expressID pset))]\<rparr>;
          (mgr', m') = setData mgr m2 [pset, rel]
      in Inr ((pset, rel), mgr', m')))))))"

text \<open>
  \<open>newSingleProperty(model, type, name, value)\<close>. The second attribute of
  \<open>IfcPropertySingleValue\<close> is written \<open>Description\<close> here.
\<close>

definition newSingleProperty ::
  "manager \<Rightarrow> model \<Rightarrow> ifc_type \<Rightarrow> string \<Rightarrow> prim \<Rightarrow> error + (entity \<times> manager \<times> model)" where
  "newSingleProperty mgr m type name val =
     (case getIFCSchema m of
        Inl e \<Rightarrow> Inl e
      | Inr s \<Rightarrow>
          (let propName = new_value IfcIdentifier (PStr name);
               propValue = new_value type val;
               (id1, m1) = increaseMaxID m;
               prop = \<lparr>expressID = id1, etype = IFCPROPERTYSINGLEVALUE,
                       attrs = [(''Name'', propName), (''Description'', Null),
                                (''NominalValue'', propValue), (''Unit'', Null)]\<rparr>;
               (mgr', m') = setData mgr m1 [prop]
           in Inr (prop, mgr', m')))"

text \<open>The three unions of type names that the public functions accept.\<close>

datatype StringPropTypes = Str_IfcText | Str_IfcLabel | Str_IfcIdentifier



fun string_type :: "StringPropTypes \<Rightarrow> ifc_type" where
  "string_type Str_IfcText = IfcText"
| "string_type Str_IfcLabel = IfcLabel"
| "string_type Str_IfcIdentifier = IfcIdentifier"



definition newSingleStringProperty ::
  "manager \<Rightarrow> model \<Rightarrow> StringPropTypes \<Rightarrow> string \<Rightarrow> string
     \<Rightarrow> error + (entity \<times> manager \<times> model)" where
  "newSingleStringProperty mgr m type name val =
     newSingleProperty mgr m (string_type type) name (PStr val)"



text \<open>
  \<open>IfcPropertiesUtils.getPsetRel(model, psetID)\<close> lives in another module; the
  functions that call it take it as the parameter \<open>getPsetRel\<close>, which returns the
  express ID of the relation of a Pset, or \<open>None\<close> for \<open>null\<close>.
\<close>

type_synonym pset_rel = "model \<Rightarrow> nat \<Rightarrow> nat option"

text \<open>
  The entry of the table that a number names as a property key: the number itself when
  it is a natural number; any other number is the key of no entry.
\<close>

definition key_of :: "real \<Rightarrow> nat option" where
  "key_of r = (if 0 \<le> r \<and> of_int \<lfloor>r\<rfloor> = r then Some (nat \<lfloor>r\<rfloor>) else None)"

text \<open>
  The inner loop of \<open>removePset\<close>: \<open>setProperties(propHandle.value, null)\<close> for each
  element of \<open>HasProperties\<close>. Reading \<open>value\<close> of \<open>null\<close> throws. The \<open>value\<close> of
  a handle is a number; an element with any other \<open>value\<close>, or with none, is taken to
  name no entry, and nothing is deleted for it.
\<close>

fun delete_handles :: "model \<Rightarrow> ifc_attr list \<Rightarrow> error + model" where
  "delete_handles m [] = Inr m"
| "delete_handles m (Null # hs) = Inl TypeError"
| "delete_handles m (Obj t (Some (PNum r)) l # hs) =
     delete_handles
       (case key_of r of None \<Rightarrow> m | Some k \<Rightarrow> setProperties m k None) hs"
| "delete_handles m (h # hs) = delete_handles m hs"

text \<open>One iteration of the loop of \<open>removePset\<close>.\<close>

definition removePset1 ::
  "pset_rel \<Rightarrow> manager \<Rightarrow> model \<Rightarrow> nat \<Rightarrow> error + (manager \<times> model)" where
  "removePset1 getPsetRel mgr m i =
     (case getProperties m i of
        None \<Rightarrow> Inr (mgr, m)
      | Some pset \<Rightarrow>
          if etype pset \<noteq> IFCPROPERTYSET then Inr (mgr, m)
          else
            (let (mgr1, m1) =
                   (case getPsetRel m i of
                      None \<Rightarrow> (mgr, m)
                    | Some relID \<Rightarrow>
                        if relID = 0 then (mgr, m)
                        else (registerChange mgr m [relID], setProperties m relID None))
             in
             (case entity_get pset ''HasProperties'' of
                Arr hs \<Rightarrow>
                  (case delete_handles m1 hs of
                     Inl e \<Rightarrow> Inl e
                   | Inr m2 \<Rightarrow>
                       Inr (registerChange (fire [OnPsetRemoved (uuid m) i] mgr1) m2 [i],
                            setProperties m2 i None))
              | _ \<Rightarrow> Inl TypeError)))"

fun removePset ::
  "pset_rel \<Rightarrow> manager \<Rightarrow> model \<Rightarrow> nat list \<Rightarrow> error + (manager \<times> model)" where
  "removePset getPsetRel mgr m [] = Inr (mgr, m)"
| "removePset getPsetRel mgr m (i # psetID) =
     (case removePset1 getPsetRel mgr m i of
        Inl e \<Rightarrow> Inl e
      | Inr (mgr', m') \<Rightarrow> removePset getPsetRel mgr' m' psetID)"

text \<open>
  The callback of the \<open>filter\<close> in \<open>removePsetProp\<close>:
  \<open>handle.value !== propID\<close>. A bare primitive and an array have no \<open>value\<close>.
\<close>

fun keeps :: "nat \<Rightarrow> ifc_attr \<Rightarrow> bool" where
  "keeps propID (Obj t v l) = (v \<noteq> Some (PNum (real propID)))"
| "keeps propID h = True"

definition removePsetProp ::
  "manager \<Rightarrow> model \<Rightarrow> nat \<Rightarrow> nat \<Rightarrow> error + (manager \<times> model)" where
  "removePsetProp mgr m psetID propID =
     (case getProperties m psetID of
        None \<Rightarrow> Inr (mgr, m)
      | Some pset \<Rightarrow>
          (case getProperties m propID of
             None \<Rightarrow> Inr (mgr, m)
           | Some prop \<Rightarrow>
               if etype pset \<noteq> IFCPROPERTYSET then Inr (mgr, m)
               else
                 (case entity_get pset ''HasProperties'' of
                    Arr hs \<Rightarrow>
                      if Null \<in> set hs then Inl TypeError
                      else
                        (let pset' = entity_set pset ''HasProperties''
                                       (Arr (filter (keeps propID) hs));
                             m1 = setProperties m psetID (Some pset');
                             m2 = setProperties m1 propID None
                         in Inr (registerChange mgr m2 [psetID, propID], m2))
                  | _ \<Rightarrow> Inl TypeError)))"

text \<open>\<open>entity[name].push(x)\<close>: the attribute has to be an array.\<close>

definition push_attr :: "entity \<Rightarrow> string \<Rightarrow> ifc_attr \<Rightarrow> error + entity" where
  "push_attr e name x =
     (case entity_get e name of
        Arr hs \<Rightarrow> Inr (entity_set e name (Arr (hs @ [x])))
      | _ \<Rightarrow> Inl TypeError)"

text \<open>The loop of \<open>addElementToPset\<close>, on the relation that was read.\<close>

fun push_elements ::
  "manager \<Rightarrow> string \<Rightarrow> nat \<Rightarrow> entity \<Rightarrow> nat list \<Rightarrow> error + (manager \<times> entity)" where
  "push_elements mgr u psetID rel [] = Inr (mgr, rel)"
| "push_elements mgr u psetID rel (i # elementID) =
     (case push_attr rel ''RelatedObjects'' (new_Handle i) of
        Inl e \<Rightarrow> Inl e
      | Inr rel' \<Rightarrow>
          push_elements (fire [OnElementToPset u psetID i] mgr) u psetID rel' elementID)"

definition addElementToPset ::
  "pset_rel \<Rightarrow> manager \<Rightarrow> model \<Rightarrow> nat \<Rightarrow> nat list \<Rightarrow> error + (manager \<times> model)" where
  "addElementToPset getPsetRel mgr m psetID elementID =
     (case getPsetRel m psetID of
        None \<Rightarrow> Inr (mgr, m)
      | Some relID \<Rightarrow>
          if relID = 0 then Inr (mgr, m)
          else
            (case getProperties m relID of
               None \<Rightarrow> Inr (mgr, m)
             | Some rel \<Rightarrow>
                 (case push_elements mgr (uuid m) psetID rel elementID of
                    Inl e \<Rightarrow> Inl e
                  | Inr (mgr1, rel') \<Rightarrow>
                      (let m1 = setProperties m relID (Some rel')
                       in Inr (registerChange mgr1 m1 [psetID], m1)))))"

text \<open>
  The loop of \<open>addPropToPset\<close>, on the Pset that was read.
  \<open>HasProperties.includes(expressID)\<close> looks for the number itself among the elements
  of the array (\<open>includes\<close> compares with SameValueZero); a \<open>Handle\<close> object is never
  equal to a number.
\<close>

fun push_props ::
  "manager \<Rightarrow> string \<Rightarrow> nat \<Rightarrow> entity \<Rightarrow> nat list \<Rightarrow> error + (manager \<times> entity)" where
  "push_props mgr u psetID pset [] = Inr (mgr, pset)"
| "push_props mgr u psetID pset (i # propID) =
     (case entity_get pset ''HasProperties'' of
        Arr hs \<Rightarrow>
          if Prim (PNum (real i)) \<in> set hs then push_props mgr u psetID pset propID
          else
            (case push_attr pset ''HasProperties'' (new_Handle i) of
               Inl e \<Rightarrow> Inl e
             | Inr pset' \<Rightarrow>
                 push_props (fire [OnPropToPset u psetID i] mgr) u psetID pset' propID)
      | _ \<Rightarrow> Inl TypeError)"

definition addPropToPset ::
  "manager \<Rightarrow> model \<Rightarrow> nat \<Rightarrow> nat list \<Rightarrow> error + (manager \<times> model)" where
  "addPropToPset mgr m psetID propID =
     (case getProperties m psetID of
        None \<Rightarrow> Inr (mgr, m)
      | Some pset \<Rightarrow>
          (case push_props mgr (uuid m) psetID pset propID of
             Inl e \<Rightarrow> Inl e
           | Inr (mgr1, pset') \<Rightarrow>
               (let m1 = setProperties m psetID (Some pset')
                in Inr (registerChange mgr1 m1 [psetID], m1))))"

subsection \<open>Saving\<close>

text \<open>
  The IFC engine (\<open>ifcLoader\<close> and its \<open>webIfc\<close>) is external. The calls made on it
  are recorded in order. What a call returns, and whether it throws, is up to the engine
  and may depend on everything it was asked before: each component of \<open>engine\<close> maps
  the calls so far, the current one last, to the outcome; \<open>None\<close> and \<open>False\<close> stand
  for an exception.
\<close>

type_synonym bytes = "nat list"

datatype api_call =
    ReadIfcFile bytes
  | DeleteLine nat nat
  | WriteLine nat entity
  | SaveModel nat
  | CloseModel nat
  | CleanUp

record engine =
  readIfcFile_returns :: "api_call list \<Rightarrow> nat option"
  line_succeeds :: "api_call list \<Rightarrow> bool"
  SaveModel_returns :: "api_call list \<Rightarrow> bytes option"
  CloseModel_succeeds :: "api_call list \<Rightarrow> bool"
  cleanUp_succeeds :: "api_call list \<Rightarrow> bool"

text \<open>
  A call of \<open>DeleteLine\<close> or \<open>WriteLine\<close> inside \<open>try\<close> with an empty \<open>catch\<close>: the
  call is made, and the loop goes on whether it threw or not.
\<close>

definition try_line :: "engine \<Rightarrow> api_call list \<Rightarrow> api_call \<Rightarrow> api_call list" where
  "try_line eng hist c =
     (if line_succeeds eng (hist @ [c]) then hist @ [c] else hist @ [c])"

text \<open>The loop of \<open>saveToIfc\<close> over the changed express IDs.\<close>

fun save_changes ::
  "engine \<Rightarrow> model \<Rightarrow> nat \<Rightarrow> api_call list \<Rightarrow> nat list \<Rightarrow> api_call list" where
  "save_changes eng m modelID hist [] = hist"
| "save_changes eng m modelID hist (i # changes) =
     save_changes eng m modelID
       (case getProperties m i of
          None \<Rightarrow> try_line eng hist (DeleteLine modelID i)
        | Some data \<Rightarrow> try_line eng hist (WriteLine modelID data))
       changes"

text \<open>
  \<open>saveToIfc(model, ifcToSaveOn)\<close>, started after the calls \<open>hist\<close> were made on the
  engine. The result is the exception or the returned array, with the calls made.
\<close>

definition saveToIfc ::
  "engine \<Rightarrow> api_call list \<Rightarrow> manager \<Rightarrow> model \<Rightarrow> bytes
     \<Rightarrow> (error + bytes) \<times> api_call list" where
  "saveToIfc eng hist mgr m ifcToSaveOn =
     (let h1 = hist @ [ReadIfcFile ifcToSaveOn] in
      case readIfcFile_returns eng h1 of
        None \<Rightarrow> (Inl EngineError, h1)
      | Some modelID \<Rightarrow>
          (let h2 = save_changes eng m modelID h1 (changes_of mgr m);
               h3 = h2 @ [SaveModel modelID]
           in
           case SaveModel_returns eng h3 of
             None \<Rightarrow> (Inl EngineError, h3)
           | Some modifiedIFC \<Rightarrow>
               (let h4 = h3 @ [CloseModel modelID] in
                if \<not> CloseModel_succeeds eng h4 then (Inl EngineError, h4)
                else
                  (let h5 = h4 @ [CleanUp] in
                   if \<not> cleanUp_succeeds eng h5 then (Inl EngineError, h5)
                   else (Inr modifiedIFC, h5)))))"

subsection \<open>Attribute listeners\<close>

text \<open>\<open>this.attributeListeners[u][expressID][attributeName]\<close>, guarded as in the source.\<close>

definition existingListener ::
  "(string \<rightharpoonup> (nat \<rightharpoonup> (string \<rightharpoonup> ref))) \<Rightarrow> string \<Rightarrow> nat \<Rightarrow> string \<Rightarrow> ref option" where
  "existingListener al u i name =
     (case al u of
        None \<Rightarrow> None
      | Some byID \<Rightarrow> (case byID i of None \<Rightarrow> None | Some byName \<Rightarrow> byName name))"

text \<open>
  \<open>this.attributeListeners[u][expressID][attributeName] = event\<close>, after making the
  inner object when it is missing.
\<close>

definition put_listener ::
  "(string \<rightharpoonup> (nat \<rightharpoonup> (string \<rightharpoonup> ref))) \<Rightarrow> string \<Rightarrow> nat \<Rightarrow> string \<Rightarrow> ref
     \<Rightarrow> (string \<rightharpoonup> (nat \<rightharpoonup> (string \<rightharpoonup> ref)))" where
  "put_listener al u i name ev =
     (let byID = (case al u of None \<Rightarrow> Map.empty | Some b \<Rightarrow> b);
          byName = (case byID i of None \<Rightarrow> Map.empty | Some b \<Rightarrow> b)
      in al(u \<mapsto> byID(i \<mapsto> byName(name \<mapsto> ev))))"

text \<open>
  The first statement of \<open>setAttributeListener\<close>: the table after
  \<open>if (!this.attributeListeners[model.uuid]) this.attributeListeners[model.uuid] = {}\<close>.
\<close>

definition al1_of :: "manager \<Rightarrow> model \<Rightarrow> (string \<rightharpoonup> (nat \<rightharpoonup> (string \<rightharpoonup> ref)))" where
  "al1_of mgr m =
     (case attributeListeners mgr (uuid m) of
        None \<Rightarrow> (attributeListeners mgr)(uuid m \<mapsto> Map.empty)
      | Some b \<Rightarrow> attributeListeners mgr)"

text \<open>
  \<open>setAttributeListener(model, expressID, attributeName)\<close>; \<open>ev\<close> is the object that
  \<open>new Event()\<close> would return. When a listener is found it is returned at once.
  Otherwise the entity and its attribute are checked, \<open>value\<close> of the attribute object is
  redefined as an accessor whose setter stores the value and triggers the event, the
  old value is assigned back through that setter, and the event is stored.
\<close>

definition setAttributeListener ::
  "manager \<Rightarrow> model \<Rightarrow> nat \<Rightarrow> string \<Rightarrow> ref \<Rightarrow> error + (ref \<times> manager \<times> model)" where
  "setAttributeListener mgr m i attributeName ev =
     (let al1 = al1_of mgr m;
          mgr1 = mgr\<lparr>attributeListeners := al1\<rparr>
      in
      case existingListener al1 (uuid m) i attributeName of
        Some existing \<Rightarrow> Inr (existing, mgr1, m)
      | None \<Rightarrow>
          (case getProperties m i of
             None \<Rightarrow> Inl EntityNotFound
           | Some entity \<Rightarrow>
               (case entity_get entity attributeName of
                  Null \<Rightarrow> Inl AttributeArrayOrNull
                | Arr hs \<Rightarrow> Inl AttributeArrayOrNull
                | Prim p \<Rightarrow> if truthy p then Inl BadlyDefinedHandle else Inl AttributeArrayOrNull
                | Obj t None l \<Rightarrow> Inl BadlyDefinedHandle
                | Obj t (Some v) l \<Rightarrow>
                    (let entity' = entity_set entity attributeName (Obj t (Some v) (Some ev));
                         m1 = setProperties m i (Some entity');
                         mgr2 = fire [OnAttribute ev v] mgr1;
                         mgr3 = mgr2\<lparr>attributeListeners :=
                                  put_listener al1 (uuid m) i attributeName ev\<rparr>
                     in Inr (ev, mgr3, m1)))))"

text \<open>
  The application's side of a listener: the assignment
  \<open>entity[attributeName].value = v\<close> on the entity of the model, and the read of
  \<open>entity[attributeName].value\<close>. With the accessor in place the assignment runs the
  setter, which stores \<open>v\<close> and triggers the event; without it, it stores \<open>v\<close>. The
  triggers are returned. Reading a property of \<open>null\<close> and assigning to a property of
  \<open>null\<close> or of a primitive throw.
\<close>

definition assign_value ::
  "model \<Rightarrow> nat \<Rightarrow> string \<Rightarrow> prim \<Rightarrow> error + (model \<times> fired list)" where
  "assign_value m i attributeName v =
     (case getProperties m i of
        None \<Rightarrow> Inl TypeError
      | Some entity \<Rightarrow>
          (case entity_get entity attributeName of
             Obj t old l \<Rightarrow>
               Inr (setProperties m i
                      (Some (entity_set entity attributeName (Obj t (Some v) l))),
                    (case l of None \<Rightarrow> [] | Some ev \<Rightarrow> [OnAttribute ev v]))
           | Arr hs \<Rightarrow> Inr (m, [])
           | _ \<Rightarrow> Inl TypeError))"

definition read_value :: "model \<Rightarrow> nat \<Rightarrow> string \<Rightarrow> prim option" where
  "read_value m i attributeName =
     (case getProperties m i of
        None \<Rightarrow> None
      | Some entity \<Rightarrow>
          (case entity_get entity attributeName of Obj t v l \<Rightarrow> v | _ \<Rightarrow> None))"

text \<open>A run of assignments to the same attribute, with all the triggers in order.\<close>

fun assign_values ::
  "model \<Rightarrow> nat \<Rightarrow> string \<Rightarrow> prim list \<Rightarrow> error + (model \<times> fired list)" where
  "assign_values m i attributeName [] = Inr (m, [])"
| "assign_values m i attributeName (v # vs) =
     (case assign_value m i attributeName v of
        Inl e \<Rightarrow> Inl e
      | Inr (m1, fs) \<Rightarrow>
          (case assign_values m1 i attributeName vs of
             Inl e \<Rightarrow> Inl e
           | Inr (m2, fs') \<Rightarrow> Inr (m2, fs @ fs')))"


section \<open>Properties of SimpleRenderer\<close>

lemma resize_alive:
  assumes "renderer sr = Some r" "renderer2D sr = Some r2" "container sr = Some el"
  shows "\<exists>sr'. resize sr = Inr sr' \<and> renderer sr' = Some r \<and> renderer2D sr' = Some r2
           \<and> container sr' = Some el"
  using assms by (simp add: resize_def emit_def)

lemma update_alive:
  assumes "renderer sr = Some r" "renderer2D sr = Some r2" "container sr = Some el"
  shows "\<exists>sr'. update sr d = Inr sr' \<and> renderer sr' = Some r \<and> renderer2D sr' = Some r2
           \<and> container sr' = Some el"
  using assms by (simp add: update_def emit_def Let_def split: option.splits)

lemma run_rop_alive:
  assumes "renderer sr = Some r" "renderer2D sr = Some r2" "container sr = Some el"
  shows "\<exists>sr'. run_rop sr x = Inr sr' \<and> renderer sr' = Some r \<and> renderer2D sr' = Some r2
           \<and> container sr' = Some el"
proof (cases x)
  case (Update d)
  then show ?thesis using update_alive [OF assms] by simp
next
  case Resize
  then show ?thesis using resize_alive [OF assms] by simp
next
  case (GetSize csize)
  then show ?thesis using assms by (simp add: getSize_def)
qed

lemma run_rops_alive:
  assumes "renderer sr = Some r" "renderer2D sr = Some r2" "container sr = Some el"
  shows "\<exists>sr'. run_rops sr xs = Inr sr' \<and> renderer sr' = Some r \<and> renderer2D sr' = Some r2
           \<and> container sr' = Some el"
  using assms
proof (induction xs arbitrary: sr)
  case Nil
  then show ?case by simp
next
  case (Cons x xs)
  from run_rop_alive [OF Cons.prems, of x] obtain sr1 where
    step: "run_rop sr x = Inr sr1" and
    alive: "renderer sr1 = Some r" "renderer2D sr1 = Some r2" "container sr1 = Some el"
    by blast
  from Cons.IH [OF alive] step show ?case by simp
qed

lemma new_SimpleRenderer_alive:
  "\<exists>sr. new_SimpleRenderer c el r r2 dpr = Inr sr \<and> renderer sr = Some r
        \<and> renderer2D sr = Some r2 \<and> container sr = Some el"
  unfolding new_SimpleRenderer_def by (rule resize_alive) simp_all

text \<open>
  C2, as the source has it. On a renderer that has not been disposed, \<open>update\<close> always
  triggers \<open>beforeUpdate\<close> first. When the scene component and the camera component both
  exist and their \<open>get()\<close> return an object, it then renders that scene with that camera
  on the WebGL renderer, then on the CSS2D renderer, and triggers \<open>afterUpdate\<close>. When
  the scene or the camera is missing it returns right after \<open>beforeUpdate\<close>: nothing is
  rendered and \<open>afterUpdate\<close> is not triggered.
\<close>

theorem update_forwards_scene_and_camera:
  assumes "renderer sr = Some r" and "renderer2D sr = Some r2"
  shows "update sr d =
           Inr (sr\<lparr>calls := calls sr @
                  (case (scene_get (comps sr), camera_get (comps sr)) of
                     (Some sc, Some cam) \<Rightarrow>
                       [TriggerBeforeUpdate, Render3D r sc cam, Render2D r2 sc cam,
                        TriggerAfterUpdate]
                   | _ \<Rightarrow> [TriggerBeforeUpdate])\<rparr>)"
  using assms by (simp add: update_def emit_def Let_def split: option.splits)

theorem update_forwards_scene_and_camera_witness:
  "update \<lparr>comps = \<lparr>scene = Some (Some 7), camera = Some (Some 8)\<rparr>,
           container = Some \<lparr>clientWidth = 640, clientHeight = 480\<rparr>,
           renderer = Some 1, renderer2D = Some 2, enabled = True, calls = []\<rparr> 16
   = Inr \<lparr>comps = \<lparr>scene = Some (Some 7), camera = Some (Some 8)\<rparr>,
           container = Some \<lparr>clientWidth = 640, clientHeight = 480\<rparr>,
           renderer = Some 1, renderer2D = Some 2, enabled = True,
           calls = [TriggerBeforeUpdate, Render3D 1 7 8, Render2D 2 7 8,
                    TriggerAfterUpdate]\<rparr>"
  using update_forwards_scene_and_camera
    [of "\<lparr>comps = \<lparr>scene = Some (Some 7), camera = Some (Some 8)\<rparr>,
           container = Some \<lparr>clientWidth = 640, clientHeight = 480\<rparr>,
           renderer = Some 1, renderer2D = Some 2, enabled = True, calls = []\<rparr>" 1 2 16]
  by (simp add: scene_get_def camera_get_def)

text \<open>
  C2, as the claim states it, fails: with no scene component, a call of \<open>update\<close> triggers
  \<open>beforeUpdate\<close> and nothing else.
\<close>

theorem update_without_scene_counterexample:
  "update \<lparr>comps = \<lparr>scene = None, camera = Some (Some 8)\<rparr>,
           container = Some \<lparr>clientWidth = 640, clientHeight = 480\<rparr>,
           renderer = Some 1, renderer2D = Some 2, enabled = True, calls = []\<rparr> 16
   = Inr \<lparr>comps = \<lparr>scene = None, camera = Some (Some 8)\<rparr>,
           container = Some \<lparr>clientWidth = 640, clientHeight = 480\<rparr>,
           renderer = Some 1, renderer2D = Some 2, enabled = True,
           calls = [TriggerBeforeUpdate]\<rparr>"
  by (simp add: update_def emit_def scene_get_def camera_get_def)

text \<open>
  C7. After construction, every sequence of \<open>update\<close>, \<open>resize\<close> and \<open>getSize\<close> calls
  runs without an exception and leaves \<open>get()\<close> returning the WebGL renderer that the
  constructor created; a following \<open>dispose\<close> succeeds and \<open>get()\<close> then returns
  \<open>null\<close>.
\<close>

theorem get_returns_constructed_renderer:
  "\<exists>sr0 sr1 sr2.
     new_SimpleRenderer c el r r2 dpr = Inr sr0 \<and> get sr0 = Some r \<and>
     run_rops sr0 ops = Inr sr1 \<and> get sr1 = Some r \<and>
     dispose_renderer sr1 = Inr sr2 \<and> get sr2 = None"
proof -
  from new_SimpleRenderer_alive [of c el r r2 dpr] obtain sr0 where
    new: "new_SimpleRenderer c el r r2 dpr = Inr sr0" and
    alive0: "renderer sr0 = Some r" "renderer2D sr0 = Some r2" "container sr0 = Some el"
    by blast
  from run_rops_alive [OF alive0, of ops] obtain sr1 where
    run: "run_rops sr0 ops = Inr sr1" and alive1: "renderer sr1 = Some r"
    by blast
  have "dispose_renderer sr1 =
          Inr ((emit [DomRemove r, Dispose3D r] sr1)
                 \<lparr>renderer := None, renderer2D := None, container := None\<rparr>)"
    using alive1 by (simp add: dispose_renderer_def)
  with new run alive0 alive1 show ?thesis by (simp add: get_def)
qed

section \<open>Properties of IfcPropertiesManager\<close>

lemma getProperties_setProperties:
  "getProperties (setProperties m i d) j = (if j = i then d else getProperties m j)"
  by (cases d) (simp_all add: getProperties_def setProperties_def AList.update_conv' AList.delete_conv')

lemma setProperties_frame:
  "uuid (setProperties m i d) = uuid m"
  "schema (setProperties m i d) = schema m"
  "maxExpressID (setProperties m i d) = maxExpressID m"
  by (simp_all add: setProperties_def)

lemma registerChange_frame:
  "attributeListeners (registerChange mgr m ids) = attributeListeners mgr"
  "selectedModel (registerChange mgr m ids) = selectedModel mgr"
  "triggers (registerChange mgr m ids) = triggers mgr @ map (OnDataChanged (uuid m)) ids"
  by (simp_all add: registerChange_def fire_def)

lemma setData_frame:
  "maxExpressID (snd (setData mgr m ds)) = maxExpressID m"
  "uuid (snd (setData mgr m ds)) = uuid m"
  "schema (snd (setData mgr m ds)) = schema m"
  by (induction ds arbitrary: mgr m) (simp_all add: setProperties_frame)

lemma save_changes_calls:
  "save_changes eng m modelID hist cs =
     hist @ map (\<lambda>i. case getProperties m i of
                        None \<Rightarrow> DeleteLine modelID i
                      | Some data \<Rightarrow> WriteLine modelID data) cs"
  by (induction cs arbitrary: hist) (simp_all add: try_line_def split: option.splits)

text \<open>
  C1. Whatever the engine answers to \<open>DeleteLine\<close> and \<open>WriteLine\<close> (their exceptions
  are caught and dropped), \<open>saveToIfc\<close> reads the given file, then makes exactly one call
  for every express ID recorded in \<open>changeMap[model.uuid]\<close>, in the order of the set:
  \<open>DeleteLine\<close> when the model has no properties for the ID, \<open>WriteLine\<close> with the
  current entity otherwise. It then calls \<open>SaveModel\<close>, \<open>CloseModel\<close> and \<open>cleanUp\<close>,
  and returns what \<open>SaveModel\<close> returned after those edits.
\<close>

theorem saveToIfc_serializes_changes:
  assumes "readIfcFile_returns eng (hist @ [ReadIfcFile ifcToSaveOn]) = Some modelID"
    and "h = hist @ [ReadIfcFile ifcToSaveOn] @
               map (\<lambda>i. case getProperties m i of
                           None \<Rightarrow> DeleteLine modelID i
                         | Some data \<Rightarrow> WriteLine modelID data) (changes_of mgr m)"
    and "SaveModel_returns eng (h @ [SaveModel modelID]) = Some modifiedIFC"
    and "CloseModel_succeeds eng (h @ [SaveModel modelID, CloseModel modelID])"
    and "cleanUp_succeeds eng (h @ [SaveModel modelID, CloseModel modelID, CleanUp])"
  shows "saveToIfc eng hist mgr m ifcToSaveOn =
           (Inr modifiedIFC, h @ [SaveModel modelID, CloseModel modelID, CleanUp])"
  using assms by (simp add: saveToIfc_def save_changes_calls Let_def)


theorem saveToIfc_serializes_changes_witness:
  "saveToIfc
     \<lparr>readIfcFile_returns = (\<lambda>h. Some 0), line_succeeds = (\<lambda>h. False),
      SaveModel_returns = (\<lambda>h. Some [length h]), CloseModel_succeeds = (\<lambda>h. True),
      cleanUp_succeeds = (\<lambda>h. True)\<rparr>
     []
     \<lparr>selectedModel = None, attributeListeners = Map.empty,
      changeMap = [''m'' \<mapsto> [1, 2]], triggers = []\<rparr>
     \<lparr>uuid = ''m'', schema = Some IFC4, maxExpressID = 3,
      properties = [(1, \<lparr>expressID = 1, etype = IFCPROPERTYSINGLEVALUE, attrs = []\<rparr>)]\<rparr>
     [73, 70, 67]
   = (Inr [4],
      [ReadIfcFile [73, 70, 67],
       WriteLine 0 \<lparr>expressID = 1, etype = IFCPROPERTYSINGLEVALUE, attrs = []\<rparr>,
       DeleteLine 0 2, SaveModel 0, CloseModel 0, CleanUp])"
  using saveToIfc_serializes_changes
    [of "\<lparr>readIfcFile_returns = (\<lambda>h. Some 0), line_succeeds = (\<lambda>h. False),
          SaveModel_returns = (\<lambda>h. Some [length h]), CloseModel_succeeds = (\<lambda>h. True),
          cleanUp_succeeds = (\<lambda>h. True)\<rparr>"
        "[]" "[73, 70, 67]" 0 _
        "\<lparr>uuid = ''m'', schema = Some IFC4, maxExpressID = 3,
          properties = [(1, \<lparr>expressID = 1, etype = IFCPROPERTYSINGLEVALUE, attrs = []\<rparr>)]\<rparr>"
        "\<lparr>selectedModel = None, attributeListeners = Map.empty,
          changeMap = [''m'' \<mapsto> [1, 2]], triggers = []\<rparr>"
        "[4]", OF _ refl]
  by (simp add: changes_of_def getProperties_def)

lemma changes_registerChange:
  "changes_of (registerChange mgr m ids) m' =
     (if uuid m' = uuid m then fold set_add ids (changes_of mgr m) else changes_of mgr m')"
  by (simp add: registerChange_def changes_of_def fire_def)

lemma set_set_add: "set (set_add i s) = insert i (set s)"
  by (auto simp: set_add_def)

lemma set_fold_set_add: "set (fold set_add ids s) = set s \<union> set ids"
  by (induction ids arbitrary: s) (auto simp: set_add_def)

lemma increaseMaxID_simp:
  "increaseMaxID m = (Suc (maxExpressID m), m\<lparr>maxExpressID := Suc (maxExpressID m)\<rparr>)"
  by (simp add: increaseMaxID_def)

lemma getProperties_maxExpressID_update [simp]:
  "getProperties (m\<lparr>maxExpressID := n\<rparr>) = getProperties m"
  by (simp add: getProperties_def fun_eq_iff)

lemma changes_of_maxExpressID_update [simp]:
  "changes_of mgr (m\<lparr>maxExpressID := n\<rparr>) = changes_of mgr m"
  by (simp add: changes_of_def)

lemma newSingleProperty_result:
  assumes "schema m = Some s"
  shows "\<exists>prop mgr' m'.
           newSingleProperty mgr m type name val = Inr (prop, mgr', m') \<and>
           etype prop = IFCPROPERTYSINGLEVALUE \<and>
           entity_get prop ''Name'' = Obj IfcIdentifier (Some (PStr name)) None \<and>
           entity_get prop ''NominalValue'' = Obj type (Some (ifc_value type val)) None \<and>
           expressID prop = maxExpressID m + 1 \<and>
           maxExpressID m' = maxExpressID m + 1 \<and>
           getProperties m' (expressID prop) = Some prop \<and>
           expressID prop \<in> set (changes_of mgr' m') \<and>
           triggers mgr' = triggers mgr @ [OnDataChanged (uuid m) (expressID prop)]"
  using assms
  by (simp add: newSingleProperty_def getIFCSchema_def increaseMaxID_simp Let_def
      entity_get_def new_value_def getProperties_setProperties setProperties_frame
      changes_registerChange set_set_add registerChange_frame)


lemma getAllPropertiesOfType_found:
  assumes "getProperties m k = Some oh" and "etype oh = t"
  shows "\<exists>es. getAllPropertiesOfType m t = Some es"
proof -
  have "map_of (AList.clearjunk (properties m)) k = Some oh"
    using assms(1) by (simp add: getProperties_def AList.map_of_clearjunk)
  then have "(k, oh) \<in> set (AList.clearjunk (properties m))"
    by (rule map_of_SomeD)
  then have "oh \<in> set (map snd (AList.clearjunk (properties m)))"
    by force
  with assms(2) have "filter (\<lambda>e. etype e = t) (map snd (AList.clearjunk (properties m))) \<noteq> []"
    by (auto simp: filter_empty_conv)
  then show ?thesis
    by (auto simp: getAllPropertiesOfType_def split: list.splits)
qed

lemma getOwnerHistory_found:
  assumes "getProperties m k = Some oh" and "etype oh = IFCOWNERHISTORY"
  shows "\<exists>n. getOwnerHistory m = Inr (new_Handle n)"
proof -
  from getAllPropertiesOfType_found [OF assms] obtain es where
    es: "getAllPropertiesOfType m IFCOWNERHISTORY = Some es" ..
  then have "es \<noteq> []"
    by (auto simp: getAllPropertiesOfType_def split: list.splits)
  with es show ?thesis
    by (cases es) (auto simp: getOwnerHistory_def)
qed

lemma getOwnerHistory_maxExpressID_update [simp]:
  "getOwnerHistory (m\<lparr>maxExpressID := n\<rparr>) = getOwnerHistory m"
  by (simp add: getOwnerHistory_def getAllPropertiesOfType_def)

lemma newPset_result:
  assumes "schema m = Some s" and "getOwnerHistory m = Inr h"
  shows "\<exists>pset rel mgr' m'.
           newPset mgr m name description g1 g2 = Inr ((pset, rel), mgr', m') \<and>
           etype pset = IFCPROPERTYSET \<and>
           entity_get pset ''Name'' = Obj IfcLabel (Some (PStr name)) None \<and>
           entity_get pset ''Description'' =
             (case description of
                None \<Rightarrow> Null
              | Some d \<Rightarrow> if d = [] then Null else Obj IfcText (Some (PStr d)) None) \<and>
           entity_get pset ''HasProperties'' = Arr [] \<and>
           etype rel = IFCRELDEFINESBYPROPERTIES \<and>
           entity_get rel ''RelatingPropertyDefinition'' =
             Obj Handle (Some (PNum (real (expressID pset)))) None \<and>
           entity_get rel ''RelatedObjects'' = Arr [] \<and>
           expressID pset = maxExpressID m + 1 \<and>
           expressID rel = maxExpressID m + 2 \<and>
           maxExpressID m' = maxExpressID m + 2 \<and>
           getProperties m' (expressID pset) = Some pset \<and>
           getProperties m' (expressID rel) = Some rel \<and>
           changes_of mgr' m' =
             set_add (expressID rel) (set_add (expressID pset) (changes_of mgr m)) \<and>
           triggers mgr' = triggers mgr @ [OnDataChanged (uuid m) (expressID pset),
                                 OnDataChanged (uuid m) (expressID rel)]"
  using assms
  by (simp add: newPset_def getIFCSchema_def newGUID_def increaseMaxID_simp Let_def
      entity_get_def new_value_def new_Handle_def getProperties_setProperties
      setProperties_frame changes_registerChange registerChange_frame split: option.splits)


text \<open>No operation but the two that create entities changes \<open>maxExpressID\<close>.\<close>

lemma delete_handles_frame:
  "delete_handles m hs = Inr m' \<Longrightarrow>
     maxExpressID m' = maxExpressID m \<and> uuid m' = uuid m \<and> schema m' = schema m"
  by (induction m hs rule: delete_handles.induct)
     (auto simp: setProperties_frame split: option.splits)

lemma removePset1_frame:
  "removePset1 rel mgr m i = Inr (mgr', m') \<Longrightarrow>
     maxExpressID m' = maxExpressID m \<and> uuid m' = uuid m \<and> schema m' = schema m"
  by (auto simp: removePset1_def Let_def setProperties_frame
      split: option.splits if_splits ifc_attr.splits sum.splits dest!: delete_handles_frame)

lemma removePset_frame:
  "removePset rel mgr m ids = Inr (mgr', m') \<Longrightarrow>
     maxExpressID m' = maxExpressID m \<and> uuid m' = uuid m \<and> schema m' = schema m"
proof (induction ids arbitrary: mgr m)
  case Nil
  then show ?case by simp
next
  case (Cons i ids)
  from Cons.prems obtain mgr1 m1 where
    one: "removePset1 rel mgr m i = Inr (mgr1, m1)" and
    rest: "removePset rel mgr1 m1 ids = Inr (mgr', m')"
    by (auto split: sum.splits)
  from removePset1_frame [OF one] Cons.IH [OF rest] show ?case by simp
qed

lemma removePsetProp_frame:
  "removePsetProp mgr m psetID propID = Inr (mgr', m') \<Longrightarrow>
     maxExpressID m' = maxExpressID m \<and> uuid m' = uuid m \<and> schema m' = schema m"
  by (auto simp: removePsetProp_def Let_def setProperties_frame
      split: option.splits if_splits ifc_attr.splits)

lemma addElementToPset_frame:
  "addElementToPset rel mgr m psetID elementID = Inr (mgr', m') \<Longrightarrow>
     maxExpressID m' = maxExpressID m \<and> uuid m' = uuid m \<and> schema m' = schema m"
  by (auto simp: addElementToPset_def Let_def setProperties_frame
      split: option.splits if_splits sum.splits)

lemma addPropToPset_frame:
  "addPropToPset mgr m psetID propID = Inr (mgr', m') \<Longrightarrow>
     maxExpressID m' = maxExpressID m \<and> uuid m' = uuid m \<and> schema m' = schema m"
  by (auto simp: addPropToPset_def Let_def setProperties_frame
      split: option.splits if_splits sum.splits)

lemma setAttributeListener_frame:
  "setAttributeListener mgr m i a ev = Inr (e, mgr', m') \<Longrightarrow>
     maxExpressID m' = maxExpressID m \<and> uuid m' = uuid m \<and> schema m' = schema m"
  by (auto simp: setAttributeListener_def Let_def setProperties_frame
      split: option.splits if_splits ifc_attr.splits)


text \<open>
  C4, as the source has it. On a model with a schema and an owner history, \<open>newPset\<close>
  succeeds. The Pset it returns is an \<open>IfcPropertySet\<close> whose \<open>Name\<close> is the given
  name as an \<open>IfcLabel\<close>, whose \<open>Description\<close> is the given description as an
  \<open>IfcText\<close> (\<open>null\<close> when it is absent or empty) and whose \<open>HasProperties\<close> is
  empty; the relation is an \<open>IfcRelDefinesByProperties\<close> whose
  \<open>RelatingPropertyDefinition\<close> is a handle to that Pset. Their express IDs are the
  two numbers after \<open>maxExpressID\<close>, so they differ; they are unused before when no
  entry of the model lies above \<open>maxExpressID\<close>, which \<open>newPset\<close> does not check.
  Both entities are stored in the model under their IDs and both IDs are registered as
  changes.
\<close>

theorem newPset_creates_pset_and_relation:
  assumes "schema m = Some s"
    and "getProperties m k = Some oh" and "etype oh = IFCOWNERHISTORY"
  shows "\<exists>pset rel mgr' m'.
           newPset mgr m name description g1 g2 = Inr ((pset, rel), mgr', m') \<and>
           etype pset = IFCPROPERTYSET \<and>
           entity_get pset ''Name'' = Obj IfcLabel (Some (PStr name)) None \<and>
           entity_get pset ''Description'' =
             (case description of
                None \<Rightarrow> Null
              | Some d \<Rightarrow> if d = [] then Null else Obj IfcText (Some (PStr d)) None) \<and>
           entity_get pset ''HasProperties'' = Arr [] \<and>
           etype rel = IFCRELDEFINESBYPROPERTIES \<and>
           entity_get rel ''RelatingPropertyDefinition'' =
             Obj Handle (Some (PNum (real (expressID pset)))) None \<and>
           expressID pset = maxExpressID m + 1 \<and>
           expressID rel = maxExpressID m + 2 \<and>
           expressID pset \<noteq> expressID rel \<and>
           ((\<forall>j e. getProperties m j = Some e \<longrightarrow> j \<le> maxExpressID m) \<longrightarrow>
              getProperties m (expressID pset) = None \<and>
              getProperties m (expressID rel) = None) \<and>
           getProperties m' (expressID pset) = Some pset \<and>
           getProperties m' (expressID rel) = Some rel \<and>
           changes_of mgr' m' =
             set_add (expressID rel) (set_add (expressID pset) (changes_of mgr m))"
proof -
  from getOwnerHistory_found [OF assms(2,3)] obtain n where
    oh: "getOwnerHistory m = Inr (new_Handle n)" ..
  from newPset_result [OF assms(1) oh, of mgr name description g1 g2]
  obtain pset rel mgr' m' where
    r: "newPset mgr m name description g1 g2 = Inr ((pset, rel), mgr', m')"
      "etype pset = IFCPROPERTYSET"
      "entity_get pset ''Name'' = Obj IfcLabel (Some (PStr name)) None"
      "entity_get pset ''Description'' =
         (case description of
            None \<Rightarrow> Null
          | Some d \<Rightarrow> if d = [] then Null else Obj IfcText (Some (PStr d)) None)"
      "entity_get pset ''HasProperties'' = Arr []"
      "etype rel = IFCRELDEFINESBYPROPERTIES"
      "entity_get rel ''RelatingPropertyDefinition'' =
         Obj Handle (Some (PNum (real (expressID pset)))) None"
      "expressID pset = maxExpressID m + 1"
      "expressID rel = maxExpressID m + 2"
      "getProperties m' (expressID pset) = Some pset"
      "getProperties m' (expressID rel) = Some rel"
      "changes_of mgr' m' =
         set_add (expressID rel) (set_add (expressID pset) (changes_of mgr m))"
    by blast
  have distinct: "expressID pset \<noteq> expressID rel"
    using r(8,9) by simp
  have fresh: "(\<forall>j e. getProperties m j = Some e \<longrightarrow> j \<le> maxExpressID m) \<longrightarrow>
      getProperties m (expressID pset) = None \<and> getProperties m (expressID rel) = None"
  proof
    assume b: "\<forall>j e. getProperties m j = Some e \<longrightarrow> j \<le> maxExpressID m"
    have "getProperties m (maxExpressID m + 1) = None"
    proof (cases "getProperties m (maxExpressID m + 1)")
      case (Some e) with b have "maxExpressID m + 1 \<le> maxExpressID m" by blast
      then show ?thesis by simp
    qed simp
    moreover have "getProperties m (maxExpressID m + 2) = None"
    proof (cases "getProperties m (maxExpressID m + 2)")
      case (Some e) with b have "maxExpressID m + 2 \<le> maxExpressID m" by blast
      then show ?thesis by simp
    qed simp
    ultimately show "getProperties m (expressID pset) = None \<and>
        getProperties m (expressID rel) = None"
      using r(8,9) by simp
  qed
  from r distinct fresh show ?thesis by blast
qed

theorem newPset_creates_pset_and_relation_witness:
  "\<exists>pset rel mgr' m'.
     newPset \<lparr>selectedModel = None, attributeListeners = Map.empty,
              changeMap = Map.empty, triggers = []\<rparr>
             \<lparr>uuid = ''m'', schema = Some IFC4, maxExpressID = 5,
              properties = [(5, \<lparr>expressID = 5, etype = IFCOWNERHISTORY, attrs = []\<rparr>)]\<rparr>
             ''Pset_Custom'' (Some ''demo'') ''guid-a'' ''guid-b''
       = Inr ((pset, rel), mgr', m') \<and>
     expressID pset = 6 \<and> expressID rel = 7 \<and>
     entity_get pset ''Name'' = Obj IfcLabel (Some (PStr ''Pset_Custom'')) None \<and>
     entity_get pset ''Description'' = Obj IfcText (Some (PStr ''demo'')) None \<and>
     entity_get pset ''HasProperties'' = Arr [] \<and>
     entity_get rel ''RelatingPropertyDefinition'' = Obj Handle (Some (PNum 6)) None \<and>
     getProperties
       \<lparr>uuid = ''m'', schema = Some IFC4, maxExpressID = 5,
        properties = [(5, \<lparr>expressID = 5, etype = IFCOWNERHISTORY, attrs = []\<rparr>)]\<rparr> 6
       = None \<and>
     getProperties m' 6 = Some pset \<and> getProperties m' 7 = Some rel \<and>
     changes_of mgr' m' = [6, 7]"
proof -
  let ?m = "\<lparr>uuid = ''m'', schema = Some IFC4, maxExpressID = 5,
             properties = [(5, \<lparr>expressID = 5, etype = IFCOWNERHISTORY, attrs = []\<rparr>)]\<rparr>"
  have oh: "getProperties ?m 5 = Some \<lparr>expressID = 5, etype = IFCOWNERHISTORY, attrs = []\<rparr>"
    by (simp add: getProperties_def)
  have bounded: "\<forall>j e. getProperties ?m j = Some e \<longrightarrow> j \<le> maxExpressID ?m"
    by (simp add: getProperties_def)
  have empty: "changes_of \<lparr>selectedModel = None, attributeListeners = Map.empty,
                            changeMap = Map.empty, triggers = []\<rparr> m = []" for m
    by (simp add: changes_of_def)
  have sc: "schema ?m = Some IFC4"
    by simp
  have ty: "etype \<lparr>expressID = 5, etype = IFCOWNERHISTORY, attrs = []\<rparr> = IFCOWNERHISTORY"
    by simp
  from newPset_creates_pset_and_relation
    [OF sc oh ty, of
        "\<lparr>selectedModel = None, attributeListeners = Map.empty,
          changeMap = Map.empty, triggers = []\<rparr>"
        "''Pset_Custom''" "Some ''demo''" "''guid-a''" "''guid-b''"]
  show ?thesis
    apply (elim exE conjE)
    subgoal for pset rel mgr' m'
      using bounded
      by (rule_tac x = pset in exI, rule_tac x = rel in exI, rule_tac x = mgr' in exI,
          rule_tac x = m' in exI, simp add: empty set_add_def)
    done
qed

text \<open>
  C4, as the claim states it, fails on freshness. \<open>setData\<close> stores an entity under
  express ID 6 in a model whose \<open>maxExpressID\<close> is 5 and leaves \<open>maxExpressID\<close> at 5;
  \<open>newPset\<close> on that model gives the new Pset the express ID 6, which is in use, and
  the entity that was stored there is replaced by the Pset.
\<close>

theorem newPset_reuses_express_id_counterexample:
  "snd (setData
          \<lparr>selectedModel = None, attributeListeners = Map.empty,
           changeMap = Map.empty, triggers = []\<rparr>
          \<lparr>uuid = ''m'', schema = Some IFC4, maxExpressID = 5,
           properties = [(5, \<lparr>expressID = 5, etype = IFCOWNERHISTORY, attrs = []\<rparr>)]\<rparr>
          [\<lparr>expressID = 6, etype = IFCPROPERTYSINGLEVALUE, attrs = []\<rparr>])
     = \<lparr>uuid = ''m'', schema = Some IFC4, maxExpressID = 5,
        properties = [(5, \<lparr>expressID = 5, etype = IFCOWNERHISTORY, attrs = []\<rparr>),
                      (6, \<lparr>expressID = 6, etype = IFCPROPERTYSINGLEVALUE, attrs = []\<rparr>)]\<rparr> \<and>
   (case newPset
           \<lparr>selectedModel = None, attributeListeners = Map.empty,
            changeMap = Map.empty, triggers = []\<rparr>
           \<lparr>uuid = ''m'', schema = Some IFC4, maxExpressID = 5,
            properties = [(5, \<lparr>expressID = 5, etype = IFCOWNERHISTORY, attrs = []\<rparr>),
                          (6, \<lparr>expressID = 6, etype = IFCPROPERTYSINGLEVALUE, attrs = []\<rparr>)]\<rparr>
           ''Pset_Custom'' None ''guid-a'' ''guid-b'' of
      Inl e \<Rightarrow> None
    | Inr ((pset, rel), mgr', m') \<Rightarrow>
        Some (expressID pset,
              getProperties
                \<lparr>uuid = ''m'', schema = Some IFC4, maxExpressID = 5,
                 properties =
                   [(5, \<lparr>expressID = 5, etype = IFCOWNERHISTORY, attrs = []\<rparr>),
                    (6, \<lparr>expressID = 6, etype = IFCPROPERTYSINGLEVALUE, attrs = []\<rparr>)]\<rparr>
                (expressID pset),
              getProperties m' 6 = Some pset))
     = Some (6, Some \<lparr>expressID = 6, etype = IFCPROPERTYSINGLEVALUE, attrs = []\<rparr>, True)"
  by (simp add: setProperties_def newPset_def getIFCSchema_def getOwnerHistory_def
      getAllPropertiesOfType_def newGUID_def increaseMaxID_def Let_def getProperties_def
      IFCOWNERHISTORY_def IFCPROPERTYSINGLEVALUE_def)







text \<open>
  C3, as the source has it. The manager assigns express IDs itself, from
  \<open>model.ifcMetadata.maxExpressID\<close>: \<open>newPset\<close> gives the Pset and the relation the
  two numbers after it and raises it by two, \<open>newSingleProperty\<close> (behind the three
  \<open>newSingle...Property\<close> functions) gives the property the number after it and
  raises it by one. The other operations that succeed (\<open>setData\<close>, \<open>removePset\<close>,
  \<open>removePsetProp\<close>, \<open>addElementToPset\<close>, \<open>addPropToPset\<close>,
  \<open>setAttributeListener\<close>) leave \<open>maxExpressID\<close> as it was.
\<close>

theorem express_ids_assigned_by_manager:
  "maxExpressID (snd (setData mgr m ds)) = maxExpressID m \<and>
   (\<forall>r mgr' m'. newPset mgr m name description g1 g2 = Inr (r, mgr', m') \<longrightarrow>
      expressID (fst r) = maxExpressID m + 1 \<and> expressID (snd r) = maxExpressID m + 2 \<and>
      maxExpressID m' = maxExpressID m + 2) \<and>
   (\<forall>prop mgr' m'. newSingleProperty mgr m ty name v = Inr (prop, mgr', m') \<longrightarrow>
      expressID prop = maxExpressID m + 1 \<and> maxExpressID m' = maxExpressID m + 1) \<and>
   (\<forall>mgr' m'. removePset getPsetRel mgr m ids = Inr (mgr', m') \<longrightarrow>
      maxExpressID m' = maxExpressID m) \<and>
   (\<forall>mgr' m'. removePsetProp mgr m psetID propID = Inr (mgr', m') \<longrightarrow>
      maxExpressID m' = maxExpressID m) \<and>
   (\<forall>mgr' m'. addElementToPset getPsetRel mgr m psetID ids = Inr (mgr', m') \<longrightarrow>
      maxExpressID m' = maxExpressID m) \<and>
   (\<forall>mgr' m'. addPropToPset mgr m psetID ids = Inr (mgr', m') \<longrightarrow>
      maxExpressID m' = maxExpressID m) \<and>
   (\<forall>e mgr' m'. setAttributeListener mgr m i a ev = Inr (e, mgr', m') \<longrightarrow>
      maxExpressID m' = maxExpressID m)"
proof -
  have pset: "expressID (fst r) = maxExpressID m + 1 \<and> expressID (snd r) = maxExpressID m + 2 \<and>
      maxExpressID m' = maxExpressID m + 2"
    if "newPset mgr m name description g1 g2 = Inr (r, mgr', m')" for r mgr' m'
    using that
    by (auto simp: newPset_def getIFCSchema_def newGUID_def increaseMaxID_simp Let_def
        setProperties_frame split: option.splits sum.splits)
  have single: "expressID p = maxExpressID m + 1 \<and> maxExpressID m' = maxExpressID m + 1"
    if "newSingleProperty mgr m ty name v = Inr (p, mgr', m')" for p mgr' m'
    using that
    by (auto simp: newSingleProperty_def getIFCSchema_def increaseMaxID_simp Let_def
        setProperties_frame split: option.splits)
  show ?thesis
  proof (intro conjI allI impI)
    show "maxExpressID (snd (setData mgr m ds)) = maxExpressID m"
      by (rule setData_frame(1))
  next
    fix mgr' m'
    assume "removePset getPsetRel mgr m ids = Inr (mgr', m')"
    from removePset_frame [OF this] show "maxExpressID m' = maxExpressID m" by simp
  next
    fix mgr' m'
    assume "removePsetProp mgr m psetID propID = Inr (mgr', m')"
    from removePsetProp_frame [OF this] show "maxExpressID m' = maxExpressID m" by simp
  next
    fix mgr' m'
    assume "addElementToPset getPsetRel mgr m psetID ids = Inr (mgr', m')"
    from addElementToPset_frame [OF this] show "maxExpressID m' = maxExpressID m" by simp
  next
    fix mgr' m'
    assume "addPropToPset mgr m psetID ids = Inr (mgr', m')"
    from addPropToPset_frame [OF this] show "maxExpressID m' = maxExpressID m" by simp
  next
    fix e mgr' m'
    assume "setAttributeListener mgr m i a ev = Inr (e, mgr', m')"
    from setAttributeListener_frame [OF this] show "maxExpressID m' = maxExpressID m" by simp
  next
    fix r mgr' m'
    assume "newPset mgr m name description g1 g2 = Inr (r, mgr', m')"
    from pset [OF this]
    show "expressID (fst r) = maxExpressID m + 1" "expressID (snd r) = maxExpressID m + 2"
      "maxExpressID m' = maxExpressID m + 2"
      by simp_all
  next
    fix p mgr' m'
    assume "newSingleProperty mgr m ty name v = Inr (p, mgr', m')"
    from single [OF this]
    show "expressID p = maxExpressID m + 1" "maxExpressID m' = maxExpressID m + 1"
      by simp_all
  qed
qed

theorem express_ids_assigned_by_manager_witness:
  "\<exists>p mgr' m'.
     newSingleProperty
       \<lparr>selectedModel = None, attributeListeners = Map.empty, changeMap = Map.empty, triggers = []\<rparr>
       \<lparr>uuid = ''m'', schema = Some IFC4, maxExpressID = 10, properties = []\<rparr>
       IfcLabel ''Color'' (PStr ''red'') = Inr (p, mgr', m') \<and>
     expressID p = 11 \<and> maxExpressID m' = 11"
proof -
  have sc: "schema \<lparr>uuid = ''m'', schema = Some IFC4, maxExpressID = 10, properties = []\<rparr>
            = Some IFC4"
    by simp
  from newSingleProperty_result [OF sc] obtain p mgr' m' where
    r: "newSingleProperty
          \<lparr>selectedModel = None, attributeListeners = Map.empty, changeMap = Map.empty,
           triggers = []\<rparr>
          \<lparr>uuid = ''m'', schema = Some IFC4, maxExpressID = 10, properties = []\<rparr>
          IfcLabel ''Color'' (PStr ''red'') = Inr (p, mgr', m')"
    by blast
  note t = express_ids_assigned_by_manager
    [where mgr = "\<lparr>selectedModel = None, attributeListeners = Map.empty,
                    changeMap = Map.empty, triggers = []\<rparr>"
       and m = "\<lparr>uuid = ''m'', schema = Some IFC4, maxExpressID = 10, properties = []\<rparr>"
       and ty = IfcLabel and name = "''Color''" and v = "PStr ''red''",
     THEN conjunct2, THEN conjunct2, THEN conjunct1, rule_format, OF r]
  from t have "expressID p = 11" and "maxExpressID m' = 11"
    by simp_all
  with r show ?thesis
    by (intro exI [of _ p] exI [of _ mgr'] exI [of _ m']) simp
qed

text \<open>
  C3, as the claim states it, fails: \<open>newSingleStringProperty\<close> on a model whose
  \<open>maxExpressID\<close> is 10 computes the express ID 11 for the new property and leaves
  \<open>maxExpressID\<close> at 11.
\<close>

theorem maxExpressID_modified_counterexample:
  "maxExpressID \<lparr>uuid = ''m'', schema = Some IFC4, maxExpressID = 10, properties = []\<rparr> = 10 \<and>
   (case newSingleStringProperty
           \<lparr>selectedModel = None, attributeListeners = Map.empty, changeMap = Map.empty,
            triggers = []\<rparr>
           \<lparr>uuid = ''m'', schema = Some IFC4, maxExpressID = 10, properties = []\<rparr>
           Str_IfcLabel ''Color'' ''red'' of
      Inl e \<Rightarrow> None
    | Inr (p, mgr', m') \<Rightarrow> Some (expressID p, maxExpressID m')) = Some (11, 11)"
  by (simp add: newSingleStringProperty_def newSingleProperty_def getIFCSchema_def
      increaseMaxID_def Let_def setProperties_def)

lemma entity_get_set_same:
  assumes "entity_get e a = Obj t v l"
  shows "entity_get (entity_set e a x) a = x"
proof -
  from assms have "a \<noteq> ''expressID''" and "a \<noteq> ''type''"
    by (auto simp: entity_get_def split: if_splits)
  then show ?thesis
    by (simp add: entity_get_def entity_set_def AList.update_conv')
qed

lemma assign_value_listening:
  assumes "getProperties m i = Some en" and "entity_get en a = Obj t v0 (Some ev)"
  shows "\<exists>en'. assign_value m i a v = Inr (setProperties m i (Some en'), [OnAttribute ev v]) \<and>
           entity_get en' a = Obj t (Some v) (Some ev)"
  using assms
  by (intro exI [of _ "entity_set en a (Obj t (Some v) (Some ev))"])
     (simp add: assign_value_def entity_get_set_same)

lemma assign_values_listening:
  assumes "getProperties m i = Some en" and "entity_get en a = Obj t v0 (Some ev)"
  shows "\<exists>m' en'. assign_values m i a vs = Inr (m', map (OnAttribute ev) vs) \<and>
           getProperties m' i = Some en' \<and>
           entity_get en' a = Obj t (if vs = [] then v0 else Some (last vs)) (Some ev)"
  using assms
proof (induction vs arbitrary: m en v0)
  case Nil
  then show ?case by simp
next
  case (Cons v vs)
  from assign_value_listening [OF Cons.prems, of v] obtain en1 where
    one: "assign_value m i a v = Inr (setProperties m i (Some en1), [OnAttribute ev v])" and
    attr: "entity_get en1 a = Obj t (Some v) (Some ev)"
    by blast
  have stored: "getProperties (setProperties m i (Some en1)) i = Some en1"
    by (simp add: getProperties_setProperties)
  from Cons.IH [OF stored attr] obtain m' en' where
    rest: "assign_values (setProperties m i (Some en1)) i a vs =
             Inr (m', map (OnAttribute ev) vs)"
      "getProperties m' i = Some en'"
      "entity_get en' a = Obj t (if vs = [] then Some v else Some (last vs)) (Some ev)"
    by blast
  from one rest show ?case by simp
qed

lemma existingListener_put:
  "existingListener (put_listener al u i a ev) u i a = Some ev"
  by (simp add: existingListener_def put_listener_def Let_def)

lemma setAttributeListener_cached:
  assumes "existingListener (attributeListeners mgr) (uuid m) i a = Some e"
  shows "setAttributeListener mgr m i a ev = Inr (e, mgr, m)"
proof -
  from assms obtain b where b: "attributeListeners mgr (uuid m) = Some b"
    by (auto simp: existingListener_def split: option.splits)
  then have "al1_of mgr m = attributeListeners mgr"
    by (simp add: al1_of_def)
  with assms show ?thesis
    by (simp add: setAttributeListener_def Let_def)
qed

lemma existingListener_al1:
  "existingListener (al1_of mgr m) (uuid m) i a =
     existingListener (attributeListeners mgr) (uuid m) i a"
  by (simp add: existingListener_def al1_of_def split: option.splits)

lemma setAttributeListener_cases:
  assumes "setAttributeListener mgr m i a ev = Inr (e, mgr', m')"
  shows "(existingListener (attributeListeners mgr) (uuid m) i a = Some e \<and>
          mgr' = mgr\<lparr>attributeListeners := al1_of mgr m\<rparr> \<and> m' = m)
       \<or> (existingListener (attributeListeners mgr) (uuid m) i a = None \<and> e = ev \<and>
          (\<exists>en t v l.
             getProperties m i = Some en \<and> entity_get en a = Obj t (Some v) l \<and>
             m' = setProperties m i (Some (entity_set en a (Obj t (Some v) (Some ev)))) \<and>
             mgr' = (fire [OnAttribute ev v] (mgr\<lparr>attributeListeners := al1_of mgr m\<rparr>))
                      \<lparr>attributeListeners := put_listener (al1_of mgr m) (uuid m) i a ev\<rparr>))"
proof (cases "existingListener (al1_of mgr m) (uuid m) i a")
  case (Some x)
  with assms have "x = e" "mgr' = mgr\<lparr>attributeListeners := al1_of mgr m\<rparr>" "m' = m"
    by (auto simp add: setAttributeListener_def Let_def)
  with Some show ?thesis
    by (simp add: existingListener_al1)
next
  case None
  note none = this
  show ?thesis
  proof (cases "getProperties m i")
    case None
    with assms none show ?thesis
      by (simp add: setAttributeListener_def Let_def)
  next
    case (Some en)
    note en = this
    show ?thesis
    proof (cases "entity_get en a")
      case Null
      with assms none en show ?thesis
        by (simp add: setAttributeListener_def Let_def)
    next
      case (Prim p)
      with assms none en show ?thesis
        by (simp add: setAttributeListener_def Let_def split: if_splits)
    next
      case (Arr hs)
      with assms none en show ?thesis
        by (simp add: setAttributeListener_def Let_def)
    next
      case (Obj t vo l)
      note obj = this
      show ?thesis
      proof (cases vo)
        case None
        with assms none en obj show ?thesis
          by (simp add: setAttributeListener_def Let_def)
      next
        case (Some v)
        with assms none en obj show ?thesis
          by (auto simp add: setAttributeListener_def Let_def
              existingListener_al1)
      qed
    qed
  qed
qed

lemma setAttributeListener_fresh:
  assumes "existingListener (attributeListeners mgr) (uuid m) i a = None"
    and "setAttributeListener mgr m i a ev = Inr (e, mgr', m')"
  shows "e = ev \<and>
         (\<exists>en en' t v l.
            getProperties m i = Some en \<and> entity_get en a = Obj t (Some v) l \<and>
            getProperties m' i = Some en' \<and> entity_get en' a = Obj t (Some v) (Some ev) \<and>
            triggers mgr' = triggers mgr @ [OnAttribute ev v])"
proof -
  from setAttributeListener_cases [OF assms(2)] assms(1) obtain en t v l where
    r: "e = ev" "getProperties m i = Some en" "entity_get en a = Obj t (Some v) l"
      "m' = setProperties m i (Some (entity_set en a (Obj t (Some v) (Some ev))))"
      "mgr' = (fire [OnAttribute ev v] (mgr\<lparr>attributeListeners := al1_of mgr m\<rparr>))
                \<lparr>attributeListeners := put_listener (al1_of mgr m) (uuid m) i a ev\<rparr>"
    by auto
  have "getProperties m' i = Some (entity_set en a (Obj t (Some v) (Some ev)))"
    by (simp add: r(4) getProperties_setProperties)
  moreover have "entity_get (entity_set en a (Obj t (Some v) (Some ev))) a
      = Obj t (Some v) (Some ev)"
    by (rule entity_get_set_same [OF r(3)])
  moreover have "triggers mgr' = triggers mgr @ [OnAttribute ev v]"
    by (simp add: r(5) fire_def)
  ultimately show ?thesis using r(1,2,3) by blast
qed

lemma setAttributeListener_registers:
  assumes "setAttributeListener mgr m i a ev = Inr (e, mgr', m')"
  shows "existingListener (attributeListeners mgr') (uuid m) i a = Some e"
  using setAttributeListener_cases [OF assms]
  by (auto simp: existingListener_put existingListener_al1)

lemma read_value_entity:
  "getProperties m i = Some en \<Longrightarrow> entity_get en a = Obj t v l \<Longrightarrow> read_value m i a = v"
  by (simp add: read_value_def)

text \<open>
  What a registration that finds no listener does. The call returns the new event, the
  attribute still reads the value it had, and that value was assigned back once through
  the new setter (one trigger of the event with it). In a run of assignments to
  \<open>value\<close> of that attribute object that follows at once, with no other operation on
  the entity in between, each assignment triggers the event with the assigned value and
  the attribute reads the value assigned last.
\<close>

lemma listener_triggers_on_assignment:
  assumes "existingListener (attributeListeners mgr) (uuid m) i a = None"
    and "setAttributeListener mgr m i a ev = Inr (e, mgr', m')"
  shows "e = ev \<and>
         (\<exists>v. read_value m i a = Some v \<and> read_value m' i a = Some v \<and>
              triggers mgr' = triggers mgr @ [OnAttribute e v]) \<and>
         (\<forall>vs. \<exists>m''. assign_values m' i a vs = Inr (m'', map (OnAttribute e) vs) \<and>
                 (vs \<noteq> [] \<longrightarrow> read_value m'' i a = Some (last vs)))"
proof -
  from setAttributeListener_fresh [OF assms] obtain en en' t v l where
    r: "e = ev" "getProperties m i = Some en" "entity_get en a = Obj t (Some v) l"
      "getProperties m' i = Some en'" "entity_get en' a = Obj t (Some v) (Some ev)"
      "triggers mgr' = triggers mgr @ [OnAttribute ev v]"
    by blast
  have first: "\<exists>v. read_value m i a = Some v \<and> read_value m' i a = Some v \<and>
      triggers mgr' = triggers mgr @ [OnAttribute e v]"
    using r read_value_entity [OF r(2,3)] read_value_entity [OF r(4,5)] by simp
  have later: "\<exists>m''. assign_values m' i a vs = Inr (m'', map (OnAttribute e) vs) \<and>
      (vs \<noteq> [] \<longrightarrow> read_value m'' i a = Some (last vs))" for vs
  proof -
    from assign_values_listening [OF r(4,5), of vs] obtain m'' en'' where
      a: "assign_values m' i a vs = Inr (m'', map (OnAttribute ev) vs)"
        "getProperties m'' i = Some en''"
        "entity_get en'' a = Obj t (if vs = [] then Some v else Some (last vs)) (Some ev)"
      by blast
    from read_value_entity [OF a(2,3)] a(1) r(1) show ?thesis by simp
  qed
  from r(1) first later show ?thesis by blast
qed

text \<open>
  C5 fails for a call that finds a listener already registered. A listener is
  registered on the attribute \<open>Name\<close> of entity 1 (event 7), \<open>setData\<close> then stores a
  new object under express ID 1, and \<open>setAttributeListener\<close> is called again for the
  same attribute: it resolves with event 7 and attaches nothing to the new object. The
  assignment to \<open>value\<close> that follows stores the value and triggers no event.
\<close>

theorem cached_listener_never_triggers:
  "(case setAttributeListener
           \<lparr>selectedModel = None, attributeListeners = Map.empty,
            changeMap = Map.empty, triggers = []\<rparr>
           \<lparr>uuid = ''m'', schema = Some IFC4, maxExpressID = 1,
            properties =
              [(1, \<lparr>expressID = 1, etype = IFCPROPERTYSINGLEVALUE,
                    attrs = [(''Name'', Obj IfcIdentifier (Some (PStr ''a'')) None)]\<rparr>)]\<rparr>
           1 ''Name'' 7 of
      Inl e \<Rightarrow> None
    | Inr (e1, mgr1, m1) \<Rightarrow>
        (case setData mgr1 m1
                [\<lparr>expressID = 1, etype = IFCPROPERTYSINGLEVALUE,
                  attrs = [(''Name'', Obj IfcIdentifier (Some (PStr ''b'')) None)]\<rparr>] of
           (mgr2, m2) \<Rightarrow>
             (case setAttributeListener mgr2 m2 1 ''Name'' 8 of
                Inl e \<Rightarrow> None
              | Inr (e2, mgr3, m3) \<Rightarrow>
                  (case assign_value m3 1 ''Name'' (PStr ''c'') of
                     Inl e \<Rightarrow> None
                   | Inr (m4, fs) \<Rightarrow> Some (e1, e2, fs, read_value m4 1 ''Name'')))))
   = Some (7, 7, [], Some (PStr ''c''))"
  by (simp add: setAttributeListener_def al1_of_def existingListener_def put_listener_def
      getProperties_def setProperties_def entity_get_def entity_set_def fire_def Let_def
      registerChange_def changes_of_def set_add_def assign_value_def read_value_def)

text \<open>
  C10. After a call of \<open>setAttributeListener\<close> has resolved with an event, a second
  call for the same model (any model object with that \<open>uuid\<close>, whatever its properties
  are by then), express ID and attribute name resolves with the same event and leaves
  the manager, with its \<open>attributeListeners\<close> and its log of triggers, and the model as
  they were.
\<close>

theorem setAttributeListener_idempotent:
  assumes "setAttributeListener mgr m i a ev = Inr (e, mgr', m')"
    and "uuid m2 = uuid m"
  shows "setAttributeListener mgr' m2 i a ev2 = Inr (e, mgr', m2)"
proof -
  from setAttributeListener_registers [OF assms(1)] assms(2)
  have "existingListener (attributeListeners mgr') (uuid m2) i a = Some e"
    by simp
  then show ?thesis
    by (rule setAttributeListener_cached)
qed

theorem setAttributeListener_idempotent_witness:
  "\<exists>mgr' m'.
     setAttributeListener
       \<lparr>selectedModel = None, attributeListeners = Map.empty,
        changeMap = Map.empty, triggers = []\<rparr>
       \<lparr>uuid = ''m'', schema = Some IFC4, maxExpressID = 1,
        properties =
          [(1, \<lparr>expressID = 1, etype = IFCPROPERTYSINGLEVALUE,
                attrs = [(''Name'', Obj IfcIdentifier (Some (PStr ''a'')) None)]\<rparr>)]\<rparr>
       1 ''Name'' 7
       = Inr (7, mgr', m') \<and>
     setAttributeListener mgr'
       \<lparr>uuid = ''m'', schema = Some IFC4, maxExpressID = 1, properties = []\<rparr>
       1 ''Name'' 8
       = Inr (7, mgr',
              \<lparr>uuid = ''m'', schema = Some IFC4, maxExpressID = 1, properties = []\<rparr>)"
proof -
  let ?mgr = "\<lparr>selectedModel = None, attributeListeners = Map.empty,
               changeMap = Map.empty, triggers = []\<rparr>"
  let ?m = "\<lparr>uuid = ''m'', schema = Some IFC4, maxExpressID = 1,
             properties =
               [(1, \<lparr>expressID = 1, etype = IFCPROPERTYSINGLEVALUE,
                     attrs = [(''Name'', Obj IfcIdentifier (Some (PStr ''a'')) None)]\<rparr>)]\<rparr>"
  let ?m2 = "\<lparr>uuid = ''m'', schema = Some IFC4, maxExpressID = 1, properties = []\<rparr>"
  obtain mgr' m' where
    r: "setAttributeListener ?mgr ?m 1 ''Name'' 7 = Inr (7, mgr', m')"
    by (simp add: setAttributeListener_def al1_of_def existingListener_def
        put_listener_def getProperties_def setProperties_def entity_get_def
        entity_set_def fire_def Let_def)
  have u: "uuid ?m2 = uuid ?m"
    by simp
  from setAttributeListener_idempotent [OF r u, of 8] r show ?thesis by blast
qed

text \<open>
  No operation that succeeds removes an express ID from a set of \<open>changeMap\<close>;
  \<open>dispose\<close> empties the map.
\<close>

lemma registerChange_grows:
  "set (changes_of mgr x) \<subseteq> set (changes_of (registerChange mgr m ids) x)"
  by (auto simp: registerChange_def changes_of_def fire_def set_fold_set_add)

lemma fire_changes [simp]: "changes_of (fire fs mgr) x = changes_of mgr x"
  by (simp add: fire_def changes_of_def)

lemma setData_grows:
  "set (changes_of mgr x) \<subseteq> set (changes_of (fst (setData mgr m ds)) x)"
proof (induction ds arbitrary: mgr m)
  case Nil
  show ?case by simp
next
  case (Cons d ds)
  show ?case
  proof (cases "expressID d = 0")
    case True
    with Cons.IH [of mgr m] show ?thesis by simp
  next
    case False
    have "set (changes_of mgr x) \<subseteq> set (changes_of (registerChange mgr m [expressID d]) x)"
      by (rule registerChange_grows)
    also have "\<dots> \<subseteq> set (changes_of (fst (setData (registerChange mgr m [expressID d])
                           (setProperties m (expressID d) (Some d)) ds)) x)"
      by (rule Cons.IH)
    finally show ?thesis using False by simp
  qed
qed

lemma removePset1_grows:
  assumes "removePset1 rel mgr m i = Inr (mgr', m')"
  shows "set (changes_of mgr x) \<subseteq> set (changes_of mgr' x)"
proof -
  have a: "set (changes_of mgr x) \<subseteq> set (changes_of (registerChange mgr m ids) x)" for ids
    by (rule registerChange_grows)
  have b: "set (changes_of mgr x)
             \<subseteq> set (changes_of (registerChange (fire fs (registerChange mgr m ids)) m2 ids2) x)"
    for fs ids m2 ids2
    using registerChange_grows [of "fire fs (registerChange mgr m ids)" x m2 ids2]
      registerChange_grows [of mgr x m ids]
    by simp
  have c: "set (changes_of mgr x) \<subseteq> set (changes_of (registerChange (fire fs mgr) m2 ids2) x)"
    for fs m2 ids2
    using registerChange_grows [of "fire fs mgr" x m2 ids2] by simp
  from assms show ?thesis
    by (auto simp: removePset1_def Let_def
        split: option.splits if_splits ifc_attr.splits sum.splits
        intro: subsetD [OF b] subsetD [OF c])
qed


lemma removePset_grows:
  assumes "removePset rel mgr m ids = Inr (mgr', m')"
  shows "set (changes_of mgr x) \<subseteq> set (changes_of mgr' x)"
  using assms
proof (induction ids arbitrary: mgr m)
  case Nil
  then show ?case by simp
next
  case (Cons i ids)
  from Cons.prems obtain mgr1 m1 where
    one: "removePset1 rel mgr m i = Inr (mgr1, m1)" and
    rest: "removePset rel mgr1 m1 ids = Inr (mgr', m')"
    by (auto split: sum.splits)
  from removePset1_grows [OF one, of x] Cons.IH [OF rest] show ?case by simp
qed

lemma removePsetProp_grows:
  assumes "removePsetProp mgr m psetID propID = Inr (mgr', m')"
  shows "set (changes_of mgr x) \<subseteq> set (changes_of mgr' x)"
  using assms
  by (auto simp: removePsetProp_def Let_def
      split: option.splits if_splits ifc_attr.splits
      intro: subsetD [OF registerChange_grows])

lemma push_elements_changes:
  "push_elements mgr u psetID rel ids = Inr (mgr', rel') \<Longrightarrow>
     changes_of mgr' x = changes_of mgr x"
  by (induction ids arbitrary: mgr rel) (auto split: sum.splits)

lemma push_props_changes:
  "push_props mgr u psetID pset ids = Inr (mgr', pset') \<Longrightarrow>
     changes_of mgr' x = changes_of mgr x"
  by (induction ids arbitrary: mgr pset)
     (auto split: sum.splits ifc_attr.splits if_splits)

lemma addElementToPset_grows:
  assumes "addElementToPset rel mgr m psetID ids = Inr (mgr', m')"
  shows "set (changes_of mgr x) \<subseteq> set (changes_of mgr' x)"
proof -
  have "set (changes_of mgr x) \<subseteq> set (changes_of (registerChange mgr1 m1 [psetID]) x)"
    if "changes_of mgr1 x = changes_of mgr x" for mgr1 m1
    using registerChange_grows [of mgr1 x m1 "[psetID]"] that by simp
  with assms show ?thesis
    by (auto simp: addElementToPset_def Let_def
        split: option.splits if_splits sum.splits dest!: push_elements_changes [where x = x])
qed

lemma addPropToPset_grows:
  assumes "addPropToPset mgr m psetID ids = Inr (mgr', m')"
  shows "set (changes_of mgr x) \<subseteq> set (changes_of mgr' x)"
proof -
  have "set (changes_of mgr x) \<subseteq> set (changes_of (registerChange mgr1 m1 [psetID]) x)"
    if "changes_of mgr1 x = changes_of mgr x" for mgr1 m1
    using registerChange_grows [of mgr1 x m1 "[psetID]"] that by simp
  with assms show ?thesis
    by (auto simp: addPropToPset_def Let_def
        split: option.splits sum.splits dest!: push_props_changes [where x = x])
qed

lemma setAttributeListener_changes:
  assumes "setAttributeListener mgr m i a ev = Inr (e, mgr', m')"
  shows "changes_of mgr' x = changes_of mgr x"
  using setAttributeListener_cases [OF assms]
  by (auto simp: changes_of_def fire_def)

lemma dispose_changes: "changes_of (dispose mgr) x = []"
  by (simp add: dispose_def changes_of_def fire_def)


lemma setData_result_grows:
  "setData mgr m ds = (mgr', m') \<Longrightarrow> set (changes_of mgr x) \<subseteq> set (changes_of mgr' x)"
  using setData_grows [of mgr x m ds] by simp

lemma newSingleProperty_grows:
  assumes "newSingleProperty mgr m ty name v = Inr (p, mgr', m')"
  shows "set (changes_of mgr x) \<subseteq> set (changes_of mgr' x)"
  using assms
  by (auto simp: newSingleProperty_def getIFCSchema_def increaseMaxID_simp Let_def
      simp del: setData.simps split: option.splits prod.splits
      dest!: setData_result_grows [where x = x])

lemma newPset_grows:
  assumes "newPset mgr m name description g1 g2 = Inr (r, mgr', m')"
  shows "set (changes_of mgr x) \<subseteq> set (changes_of mgr' x)"
  using assms
  by (auto simp: newPset_def getIFCSchema_def newGUID_def increaseMaxID_simp Let_def
      simp del: setData.simps split: option.splits prod.splits sum.splits
      dest!: setData_result_grows [where x = x])

text \<open>
  C8 fails on \<open>removePset\<close>. Pset 1 has the property 2 and the relation 3.
  \<open>removePset\<close> deletes all three entries but registers only 3 and 1 in
  \<open>changeMap\<close>: the deletion of property 2 is not recorded. \<open>removePsetProp\<close>, on the
  same model, registers the property it deletes.
\<close>

theorem removePset_unregistered_deletion:
  "getProperties
     \<lparr>uuid = ''m'', schema = Some IFC4, maxExpressID = 3,
      properties =
        [(1, \<lparr>expressID = 1, etype = IFCPROPERTYSET,
              attrs = [(''HasProperties'', Arr [new_Handle 2])]\<rparr>),
         (2, \<lparr>expressID = 2, etype = IFCPROPERTYSINGLEVALUE, attrs = []\<rparr>),
         (3, \<lparr>expressID = 3, etype = IFCRELDEFINESBYPROPERTIES,
              attrs = [(''RelatedObjects'', Arr []),
                       (''RelatingPropertyDefinition'', new_Handle 1)]\<rparr>)]\<rparr>
     2
     = Some \<lparr>expressID = 2, etype = IFCPROPERTYSINGLEVALUE, attrs = []\<rparr> \<and>
   (case removePset (\<lambda>m i. if i = 1 then Some 3 else None)
           \<lparr>selectedModel = None, attributeListeners = Map.empty,
            changeMap = Map.empty, triggers = []\<rparr>
           \<lparr>uuid = ''m'', schema = Some IFC4, maxExpressID = 3,
            properties =
              [(1, \<lparr>expressID = 1, etype = IFCPROPERTYSET,
                    attrs = [(''HasProperties'', Arr [new_Handle 2])]\<rparr>),
               (2, \<lparr>expressID = 2, etype = IFCPROPERTYSINGLEVALUE, attrs = []\<rparr>),
               (3, \<lparr>expressID = 3, etype = IFCRELDEFINESBYPROPERTIES,
                    attrs = [(''RelatedObjects'', Arr []),
                             (''RelatingPropertyDefinition'', new_Handle 1)]\<rparr>)]\<rparr>
           [1] of
      Inl e \<Rightarrow> None
    | Inr (mgr', m') \<Rightarrow>
        Some (getProperties m' 1, getProperties m' 2, getProperties m' 3,
              changes_of mgr' m'))
     = Some (None, None, None, [3, 1]) \<and>
   (case removePsetProp
           \<lparr>selectedModel = None, attributeListeners = Map.empty,
            changeMap = Map.empty, triggers = []\<rparr>
           \<lparr>uuid = ''m'', schema = Some IFC4, maxExpressID = 3,
            properties =
              [(1, \<lparr>expressID = 1, etype = IFCPROPERTYSET,
                    attrs = [(''HasProperties'', Arr [new_Handle 2])]\<rparr>),
               (2, \<lparr>expressID = 2, etype = IFCPROPERTYSINGLEVALUE, attrs = []\<rparr>),
               (3, \<lparr>expressID = 3, etype = IFCRELDEFINESBYPROPERTIES,
                    attrs = [(''RelatedObjects'', Arr []),
                             (''RelatingPropertyDefinition'', new_Handle 1)]\<rparr>)]\<rparr>
           1 2 of
      Inl e \<Rightarrow> None
    | Inr (mgr', m') \<Rightarrow> Some (getProperties m' 2, changes_of mgr' m'))
     = Some (None, [1, 2])"
  by (simp add: removePset1_def removePsetProp_def getProperties_def setProperties_def
      entity_get_def entity_set_def new_Handle_def key_of_def registerChange_def
      changes_of_def set_add_def fire_def Let_def IFCPROPERTYSET_def)

text \<open>
  C9 fails: a second \<open>addPropToPset\<close> with the same property pushes a second handle.
  The Pset holds \<open>Handle\<close> objects, and the test \<open>includes(expressID)\<close> looks for the
  number.
\<close>

theorem addPropToPset_pushes_twice:
  "(case addPropToPset
           \<lparr>selectedModel = None, attributeListeners = Map.empty,
            changeMap = Map.empty, triggers = []\<rparr>
           \<lparr>uuid = ''m'', schema = Some IFC4, maxExpressID = 1,
            properties =
              [(1, \<lparr>expressID = 1, etype = IFCPROPERTYSET,
                    attrs = [(''HasProperties'', Arr [])]\<rparr>)]\<rparr>
           1 [5] of
      Inl e \<Rightarrow> None
    | Inr (mgr1, m1) \<Rightarrow>
        (case addPropToPset mgr1 m1 1 [5] of
           Inl e \<Rightarrow> None
         | Inr (mgr2, m2) \<Rightarrow>
             Some (map_option (\<lambda>e. entity_get e ''HasProperties'') (getProperties m1 1),
                   map_option (\<lambda>e. entity_get e ''HasProperties'') (getProperties m2 1))))
   = Some (Some (Arr [new_Handle 5]), Some (Arr [new_Handle 5, new_Handle 5]))"
  by (simp add: addPropToPset_def push_attr_def getProperties_def setProperties_def
      entity_get_def entity_set_def new_Handle_def registerChange_def changes_of_def
      set_add_def fire_def Let_def)

end
